theory Spec2Isabelle
  imports Main "HOL-Library.AList"
begin

section \<open>Shared data model\<close>

text \<open>
  A JavaScript exception \<^verbatim>\<open>new Error(message)\<close> is the value \<open>Error message\<close>;
  a function that may throw returns \<open>js_error + 'a\<close>, with \<open>Inl\<close> the thrown error.
  A JavaScript value that is an object or a falsy value (\<^verbatim>\<open>undefined\<close>, \<^verbatim>\<open>null\<close>)
  is an \<open>option\<close>: \<open>Some\<close> the object, \<open>None\<close> the falsy value.
\<close>

datatype js_error = Error string

definition Boolean :: "'a option \<Rightarrow> bool" where
  "Boolean v = (case v of None \<Rightarrow> False | Some _ \<Rightarrow> True)"

section \<open>Parser composition (\<^verbatim>\<open>DateParser\<close>, \<^verbatim>\<open>CompositeDateParser\<close>)\<close>

text \<open>
  \<^verbatim>\<open>interface DateParser { parse(value: string): Date; parseAll(value: string): Date[]; }\<close>
  The type \<open>'d\<close> stands for \<^verbatim>\<open>Date\<close>. A call of \<^verbatim>\<open>parseAll\<close> returns a list, throws, or
  never returns (\<open>None\<close>): the loop of \<^verbatim>\<open>RegexParser.parseAll\<close> has no bound.
\<close>

record 'd DateParser =
  parse :: "string \<Rightarrow> js_error + 'd option"
  parseAll :: "string \<Rightarrow> (js_error + 'd list) option"

text \<open>
  \<^verbatim>\<open>CompositeDateParser.parse\<close>: the \<^verbatim>\<open>for\<close> loop over \<^verbatim>\<open>this.parsers\<close>; the
  \<^verbatim>\<open>try/catch (ignore)\<close> discards a candidate's exception, \<^verbatim>\<open>if (result) return result\<close>
  returns a truthy result, and the \<^verbatim>\<open>throw\<close> after the loop is the empty-list case.
\<close>

fun CompositeDateParser_parse :: "'d DateParser list \<Rightarrow> string \<Rightarrow> js_error + 'd" where
  "CompositeDateParser_parse [] v = Inl (Error (''Unable to parse date: '' @ v))"
| "CompositeDateParser_parse (p # ps) v =
     (case parse p v of
        Inl ignore \<Rightarrow> CompositeDateParser_parse ps v
      | Inr result \<Rightarrow>
          (case result of
             Some r \<Rightarrow> Inr r
           | None \<Rightarrow> CompositeDateParser_parse ps v))"

text \<open>
  \<^verbatim>\<open>Array.prototype.map\<close> with a callback that returns, throws or never returns: the calls
  are made in order and the first one that throws or does not return decides.
\<close>

fun map_calls :: "('a \<Rightarrow> (js_error + 'b) option) \<Rightarrow> 'a list \<Rightarrow> (js_error + 'b list) option" where
  "map_calls f [] = Some (Inr [])"
| "map_calls f (x # xs) =
     (case f x of
        None \<Rightarrow> None
      | Some (Inl e) \<Rightarrow> Some (Inl e)
      | Some (Inr y) \<Rightarrow>
          (case map_calls f xs of
             None \<Rightarrow> None
           | Some (Inl e) \<Rightarrow> Some (Inl e)
           | Some (Inr ys) \<Rightarrow> Some (Inr (y # ys))))"

text \<open>
  Modelled from the spec: \<^verbatim>\<open>flatten\<close> (module \<^verbatim>\<open>../arrays\<close>) is not among the sources; the
  spec has the results of all candidates concatenated, so it joins the arrays end to end.
\<close>

definition flatten :: "'a list list \<Rightarrow> 'a list" where
  "flatten xss = concat xss"

text \<open>
  \<^verbatim>\<open>CompositeDateParser.parseAll\<close>: \<^verbatim>\<open>flatten(this.parsers.map(p => p.parseAll(value)))\<close>.
\<close>

definition CompositeDateParser_parseAll ::
  "'d DateParser list \<Rightarrow> string \<Rightarrow> (js_error + 'd list) option" where
  "CompositeDateParser_parseAll parsers v =
     (case map_calls (\<lambda>p. parseAll p v) parsers of
        None \<Rightarrow> None
      | Some (Inl e) \<Rightarrow> Some (Inl e)
      | Some (Inr results) \<Rightarrow> Some (Inr (flatten results)))"

text \<open>A candidate succeeds on a text when it returns a (truthy) date without throwing.\<close>

definition succeeds :: "'d DateParser \<Rightarrow> string \<Rightarrow> bool" where
  "succeeds p v = (case parse p v of Inl _ \<Rightarrow> False | Inr r \<Rightarrow> Boolean r)"

section \<open>Text and character classes\<close>

text \<open>
  A string holds the UTF-8 bytes of the JavaScript string. A pattern reads a text one
  character at a time: \<open>head_char\<close> is the code point of the first character of a text
  and the number of bytes it takes; a byte that starts no well-formed sequence is taken
  alone. The characters covered are those of the Basic Multilingual Plane, where one
  character is one UTF-16 code unit of the JavaScript string; a pattern without the
  \<^verbatim>\<open>u\<close> flag reads a character beyond it as two units, which is not modelled.
\<close>

definition utf8_width :: "char \<Rightarrow> nat" where
  "utf8_width c =
     (let b = (of_char c :: int)
      in if b < 0x80 then 1 else if b < 0xC0 then 1 else if b < 0xE0 then 2
         else if b < 0xF0 then 3 else 4)"

definition continuation :: "char \<Rightarrow> bool" where
  "continuation c = (0x80 \<le> (of_char c :: int) \<and> (of_char c :: int) < 0xC0)"

definition head_char :: "string \<Rightarrow> (int \<times> nat) option" where
  "head_char s =
     (case s of
        [] \<Rightarrow> None
      | c # r \<Rightarrow>
          (let w = utf8_width c
           in if w = 1 \<or> length r < w - 1 \<or> \<not> list_all continuation (take (w - 1) r)
              then Some (of_char c, 1)
              else Some (foldl (\<lambda>a b. a * 64 + of_char b mod 64)
                           (of_char c mod 2 ^ (7 - w)) (take (w - 1) r), w)))"

lemma head_char_width:
  assumes "head_char s = Some (cp, w)"
  shows "0 < w \<and> w \<le> length s"
proof (cases s)
  case Nil
  then show ?thesis using assms by (simp add: head_char_def)
next
  case (Cons c r)
  then have "w = 1 \<or> (w = utf8_width c \<and> \<not> length r < w - 1)"
    using assms by (auto simp: head_char_def Let_def split: if_splits)
  moreover have "0 < utf8_width c" by (simp add: utf8_width_def Let_def)
  ultimately show ?thesis using Cons by auto
qed

text \<open>The characters of a text, each with the number of bytes it takes.\<close>

function chars_of :: "string \<Rightarrow> (int \<times> nat) list" where
  "chars_of s =
     (case head_char s of
        None \<Rightarrow> []
      | Some (cp, w) \<Rightarrow> (cp, w) # chars_of (drop w s))"
  by pat_completeness auto
termination
proof (relation "measure length")
  show "wf (measure length)" by simp
next
  fix s :: string and x2 :: "int \<times> nat" and cp :: int and w :: nat
  assume "head_char s = Some x2" "(cp, w) = x2"
  then have "0 < w \<and> w \<le> length s" using head_char_width[of s cp w] by simp
  then show "(drop w s, s) \<in> measure length" by auto
qed

declare chars_of.simps [simp del]

definition code_points :: "string \<Rightarrow> int list" where
  "code_points s = map fst (chars_of s)"

text \<open>
  The content of a character class \<^verbatim>\<open>[...]\<close> as the host reads it in a pattern without
  the \<^verbatim>\<open>u\<close> flag. A backslash with \<^verbatim>\<open>d\<close>, \<^verbatim>\<open>s\<close> or \<^verbatim>\<open>w\<close> is the class of digits, of white
  space or of word characters; with \<^verbatim>\<open>n\<close>, \<^verbatim>\<open>t\<close>, \<^verbatim>\<open>r\<close>, \<^verbatim>\<open>f\<close>, \<^verbatim>\<open>v\<close> or \<^verbatim>\<open>b\<close> a control
  character; with any other character but a digit and \<^verbatim>\<open>D S W c k u x\<close> that character
  itself. A dash that is not escaped is kept apart, as it can stand for a range. The
  content is not that of one class (\<open>None\<close>) when it holds a \<^verbatim>\<open>]\<close> that is not escaped
  (the class would end there), when it ends with a backslash (which would escape the
  closing bracket), or when it uses one of the escapes left out above.
\<close>

datatype class_atom = Chr int | Dash | Digit | Space | Word

definition class_escape :: "int \<Rightarrow> class_atom option" where
  "class_escape e =
     (if e = 100 then Some Digit
      else if e = 115 then Some Space
      else if e = 119 then Some Word
      else if e = 110 then Some (Chr 10)
      else if e = 116 then Some (Chr 9)
      else if e = 114 then Some (Chr 13)
      else if e = 102 then Some (Chr 12)
      else if e = 118 then Some (Chr 11)
      else if e = 98 then Some (Chr 8)
      else if (48 \<le> e \<and> e \<le> 57) \<or> e \<in> set [68, 83, 87, 99, 107, 117, 120] then None
      else Some (Chr e))"

fun class_atoms :: "int list \<Rightarrow> class_atom list option" where
  "class_atoms [] = Some []"
| "class_atoms [c] = (if c = 92 \<or> c = 93 then None else Some [if c = 45 then Dash else Chr c])"
| "class_atoms (c # e # r) =
     (if c = 93 then None
      else if c = 92 then
        (case class_escape e of
           None \<Rightarrow> None
         | Some a \<Rightarrow> map_option (\<lambda>atoms. a # atoms) (class_atoms r))
      else map_option (\<lambda>atoms. (if c = 45 then Dash else Chr c) # atoms) (class_atoms (e # r)))"

text \<open>
  The members of a class. \<^verbatim>\<open>a-b\<close> is the range from \<^verbatim>\<open>a\<close> to \<^verbatim>\<open>b\<close>, with a dash allowed
  at either end, and a \<^verbatim>\<open>SyntaxError\<close> (\<open>None\<close>) when \<^verbatim>\<open>b\<close> comes before \<^verbatim>\<open>a\<close>; when an end
  is one of \<^verbatim>\<open>\d\<close>, \<^verbatim>\<open>\s\<close>, \<^verbatim>\<open>\w\<close> the three stand for themselves. A dash that is first,
  last or follows a range is the dash itself.
\<close>

datatype class_item = Between int int | AnyDigit | AnySpace | AnyWord

definition endpoint :: "class_atom \<Rightarrow> int option" where
  "endpoint a = (case a of Chr c \<Rightarrow> Some c | Dash \<Rightarrow> Some 45 | _ \<Rightarrow> None)"

definition item_of :: "class_atom \<Rightarrow> class_item" where
  "item_of a =
     (case a of
        Chr c \<Rightarrow> Between c c
      | Dash \<Rightarrow> Between 45 45
      | Digit \<Rightarrow> AnyDigit
      | Space \<Rightarrow> AnySpace
      | Word \<Rightarrow> AnyWord)"

definition range_items :: "class_atom \<Rightarrow> class_atom \<Rightarrow> class_item list option" where
  "range_items x y =
     (case (endpoint x, endpoint y) of
        (Some a, Some b) \<Rightarrow> if a \<le> b then Some [Between a b] else None
      | _ \<Rightarrow> Some [item_of x, Between 45 45, item_of y])"

fun class_items :: "class_atom list \<Rightarrow> class_item list option" where
  "class_items [] = Some []"
| "class_items [x] = Some [item_of x]"
| "class_items [x, y] = Some [item_of x, item_of y]"
| "class_items (x # d # y # r) =
     (if d = Dash
      then (case range_items x y of
              None \<Rightarrow> None
            | Some items \<Rightarrow> map_option (\<lambda>more. items @ more) (class_items r))
      else map_option (\<lambda>more. item_of x # more) (class_items (d # y # r)))"

text \<open>
  White space as \<^verbatim>\<open>\s\<close> reads it (line terminators included), and membership of a
  character in a class.
\<close>

fun within :: "(int \<times> int) list \<Rightarrow> int \<Rightarrow> bool" where
  "within [] cp = False"
| "within ((a, b) # r) cp = (if a \<le> cp \<and> cp \<le> b then True else within r cp)"

definition js_space :: "int \<Rightarrow> bool" where
  "js_space cp =
     within [(9, 13), (32, 32), (160, 160), (0x1680, 0x1680), (0x2000, 0x200A),
             (0x2028, 0x2029), (0x202F, 0x202F), (0x205F, 0x205F), (0x3000, 0x3000),
             (0xFEFF, 0xFEFF)] cp"

definition item_has :: "class_item \<Rightarrow> int \<Rightarrow> bool" where
  "item_has i cp =
     (case i of
        Between a b \<Rightarrow> a \<le> cp \<and> cp \<le> b
      | AnyDigit \<Rightarrow> 48 \<le> cp \<and> cp \<le> 57
      | AnySpace \<Rightarrow> js_space cp
      | AnyWord \<Rightarrow> within [(48, 57), (65, 90), (95, 95), (97, 122)] cp)"

fun has_any :: "class_item list \<Rightarrow> int \<Rightarrow> bool" where
  "has_any [] cp = False"
| "has_any (i # items) cp = (if item_has i cp then True else has_any items cp)"

datatype char_class = NotOneClass | SyntaxError | Class bool "class_item list"

definition class_of :: "string \<Rightarrow> char_class" where
  "class_of content =
     (let cps = code_points content;
          negated = (take 1 cps = [94]);
          body = (if negated then drop 1 cps else cps)
      in case class_atoms body of
           None \<Rightarrow> NotOneClass
         | Some atoms \<Rightarrow>
             (case class_items atoms of
                None \<Rightarrow> SyntaxError
              | Some items \<Rightarrow> Class negated items))"

definition in_class :: "bool \<Rightarrow> class_item list \<Rightarrow> int \<Rightarrow> bool" where
  "in_class negated items cp = (if negated then \<not> has_any items cp else has_any items cp)"

text \<open>
  The lengths, in bytes, of the non-empty runs of characters of a class at the head of
  a text, shortest first.
\<close>

fun running :: "nat \<Rightarrow> nat list \<Rightarrow> nat list" where
  "running a [] = []"
| "running a (w # ws) = (a + w) # running (a + w) ws"

definition class_prefixes :: "(int \<Rightarrow> bool) \<Rightarrow> string \<Rightarrow> nat list" where
  "class_prefixes cls s = running 0 (map snd (takeWhile (\<lambda>(cp, w). cls cp) (chars_of s)))"

section \<open>Typed parts and the named-group matcher\<close>

text \<open>
  \<^verbatim>\<open>Intl.DateTimeFormatPart\<close> and \<^verbatim>\<open>Intl.NumberFormatPart\<close>: \<^verbatim>\<open>{type, value}\<close>.
  The fields are \<open>ptype\<close> and \<open>pvalue\<close>. A \<^verbatim>\<open>NamedMatch\<close> is \<^verbatim>\<open>{name, value}\<close>,
  with fields \<open>mname\<close> and \<open>mvalue\<close>; a group that took no part in the match has the
  empty value.
\<close>

record TypedPart =
  ptype :: string
  pvalue :: string

record NamedMatch =
  mname :: string
  mvalue :: string

text \<open>
  Modelled from the spec: \<^verbatim>\<open>NamedRegExp\<close> (module \<^verbatim>\<open>../characters\<close>) is not among the
  sources. The pattern that \<^verbatim>\<open>actualNamesPattern\<close> builds is \<^verbatim>\<open>"^" + groups + "$"\<close>,
  every piece a named group, so a pattern is the list of its groups. A group is its name
  and the prefix lengths its body can take at the head of the remaining text, in the
  order a backtracking matcher tries them (longest first for a greedy body, shortest
  first for a lazy one). \<open>NamedRegExp_match\<close> is the anchored backtracking match: the
  first split of the whole text into consecutive pieces, one per group.
\<close>

record Group =
  gname :: string
  gcands :: "string \<Rightarrow> nat list"

record NamedRegExp =
  rsource :: string
  rgroups :: "Group list"

fun first_some :: "('a \<Rightarrow> 'b option) \<Rightarrow> 'a list \<Rightarrow> 'b option" where
  "first_some f [] = None"
| "first_some f (x # xs) = (case f x of Some y \<Rightarrow> Some y | None \<Rightarrow> first_some f xs)"

fun seq_match :: "Group list \<Rightarrow> string \<Rightarrow> NamedMatch list option" where
  "seq_match [] s = (if s = [] then Some [] else None)"
| "seq_match (g # gs) s =
     first_some
       (\<lambda>n. if n \<le> length s
            then map_option (\<lambda>ms. \<lparr>mname = gname g, mvalue = take n s\<rparr> # ms)
                   (seq_match gs (drop n s))
            else None)
       (gcands g s)"

definition NamedRegExp_match :: "NamedRegExp \<Rightarrow> string \<Rightarrow> NamedMatch list option" where
  "NamedRegExp_match regex s = seq_match (rgroups regex) s"

text \<open>
  The bodies of the groups that \<^verbatim>\<open>actualNamesPattern\<close> emits:
  \<^verbatim>\<open>\d{4}\<close>, \<^verbatim>\<open>\d{1,2}\<close>, an alternation of names, \<^verbatim>\<open>(?:\d{1,2}|names)\<close> and the lazy
  character class \<^verbatim>\<open>[${value}]+?\<close>, whose content is the text between two fields, put
  into the pattern as it is: the body is a class only when that text reads as the
  content of one (\<open>class_of\<close>), and then its members are what the host reads there, a
  range for \<^verbatim>\<open>a-b\<close> included.
\<close>

definition is_digit :: "char \<Rightarrow> bool" where
  "is_digit c = (c \<in> set ''0123456789'')"

definition digits_body :: "nat \<Rightarrow> nat \<Rightarrow> string \<Rightarrow> nat list" where
  "digits_body lo hi s =
     (let k = min hi (length (takeWhile is_digit s)) in rev [lo ..< Suc k])"

definition names_body :: "string list \<Rightarrow> string \<Rightarrow> nat list" where
  "names_body ns s = map length [n \<leftarrow> ns. take (length n) s = n]"

definition month_body :: "string list \<Rightarrow> string \<Rightarrow> nat list" where
  "month_body ns s = digits_body 1 2 s @ names_body ns s"

definition literal_body :: "string \<Rightarrow> string \<Rightarrow> nat list" where
  "literal_body content s =
     (case class_of content of
        Class negated items \<Rightarrow> class_prefixes (in_class negated items) s
      | _ \<Rightarrow> [])"

section \<open>Datum lookup and the format-part emulation engine (\<^verbatim>\<open>FormatToParts\<close>)\<close>

text \<open>
  \<^verbatim>\<open>DatumLookup\<close>, \<^verbatim>\<open>Months\<close> and \<^verbatim>\<open>Weekdays\<close> are imported from \<^verbatim>\<open>./index\<close>, which is
  not among the sources. The code uses a lookup through its \<^verbatim>\<open>parse\<close> method, which
  returns a datum (read through \<^verbatim>\<open>.number\<close>) or throws, and through its \<^verbatim>\<open>pattern\<close>
  string. A lookup is therefore a parameter: the \<^verbatim>\<open>parse\<close> function, from a string or
  \<^verbatim>\<open>undefined\<close> (\<open>None\<close>) to a thrown error, a datum or a falsy value.
\<close>

record Datum =
  dname :: string
  dnumber :: int

type_synonym DatumLookup = "string option \<Rightarrow> js_error + Datum option"

text \<open>\<^verbatim>\<open>try { return Boolean(lookup.parse(value)); } catch (e) { return false; }\<close>\<close>

definition parsable :: "DatumLookup \<Rightarrow> string \<Rightarrow> bool" where
  "parsable lookup v = (case lookup (Some v) of Inl e \<Rightarrow> False | Inr r \<Rightarrow> Boolean r)"

definition getType :: "DatumLookup \<Rightarrow> DatumLookup \<Rightarrow> string \<Rightarrow> string \<Rightarrow> string" where
  "getType months weekdays t v =
     (if t = ''month'' \<or> t = ''weekday'' then
        (if parsable months v then ''month''
         else if parsable weekdays v then ''weekday''
         else ''literal'')
      else t)"

text \<open>
  \<^verbatim>\<open>collapseLiterals\<close>. The inner \<^verbatim>\<open>while (true)\<close> at index \<open>i\<close>: \<^verbatim>\<open>next = parts[i + 1]\<close>;
  out of range \<^verbatim>\<open>next\<close> is \<^verbatim>\<open>undefined\<close> and the loop breaks; otherwise the value of
  \<^verbatim>\<open>parts[i]\<close> grows by the value of \<^verbatim>\<open>next\<close> and \<^verbatim>\<open>splice(i + 1, 1)\<close> removes \<^verbatim>\<open>next\<close>.
\<close>

definition merge_next :: "TypedPart list \<Rightarrow> nat \<Rightarrow> TypedPart list" where
  "merge_next parts i =
     take i parts
       @ [(parts ! i)\<lparr>pvalue := pvalue (parts ! i) @ pvalue (parts ! Suc i)\<rparr>]
       @ drop (Suc (Suc i)) parts"

lemma length_merge_next: "Suc i < length parts \<Longrightarrow> Suc (length (merge_next parts i)) = length parts"
  by (simp add: merge_next_def min_def)

function collapse_at :: "TypedPart list \<Rightarrow> nat \<Rightarrow> TypedPart list" where
  "collapse_at parts i =
     (if Suc i < length parts \<and> ptype (parts ! Suc i) = ''literal''
      then collapse_at (merge_next parts i) i
      else parts)"
  by pat_completeness auto
termination
proof (relation "measure (\<lambda>(parts, i). length parts)")
  show "wf (measure (\<lambda>(parts, i). length parts))" by simp
next
  fix parts :: "TypedPart list" and i
  assume "Suc i < length parts \<and> ptype (parts ! Suc i) = ''literal''"
  then show "((merge_next parts i, i), (parts, i)) \<in> measure (\<lambda>(parts, i). length parts)"
    using length_merge_next[of i parts] by simp
qed

declare collapse_at.simps [simp del]

lemma collapse_at_step:
  "Suc i < length parts \<Longrightarrow> ptype (parts ! Suc i) = ''literal'' \<Longrightarrow>
     collapse_at parts i = collapse_at (merge_next parts i) i"
  by (subst collapse_at.simps) simp

lemma collapse_at_stop:
  "\<not> (Suc i < length parts \<and> ptype (parts ! Suc i) = ''literal'') \<Longrightarrow>
     collapse_at parts i = parts"
  by (subst collapse_at.simps) auto

lemma length_collapse_at: "length (collapse_at parts i) \<le> length parts"
proof (induction parts i rule: collapse_at.induct)
  case (1 parts i)
  show ?case
  proof (cases "Suc i < length parts \<and> ptype (parts ! Suc i) = ''literal''")
    case True
    then have "length (collapse_at parts i) \<le> length (merge_next parts i)"
      using "1.IH" collapse_at_step[of i parts] by simp
    also have "\<dots> \<le> length parts" using True length_merge_next[of i parts] by simp
    finally show ?thesis .
  next
    case False
    then show ?thesis using collapse_at_stop[of i parts] by simp
  qed
qed

text \<open>The outer \<^verbatim>\<open>for (let i = 0; i < parts.length; i++)\<close>, from index \<open>i\<close> on.\<close>

function collapse_from :: "TypedPart list \<Rightarrow> nat \<Rightarrow> TypedPart list" where
  "collapse_from parts i =
     (if i < length parts then
        (if ptype (parts ! i) = ''literal''
         then collapse_from (collapse_at parts i) (Suc i)
         else collapse_from parts (Suc i))
      else parts)"
  by pat_completeness auto
termination
proof (relation "measure (\<lambda>(parts, i). length parts - i)")
  show "wf (measure (\<lambda>(parts, i). length parts - i))" by simp
next
  fix parts :: "TypedPart list" and i
  assume "i < length parts" "ptype (parts ! i) = ''literal''"
  then show "((collapse_at parts i, Suc i), (parts, i)) \<in> measure (\<lambda>(parts, i). length parts - i)"
    using length_collapse_at[of parts i] by simp
next
  fix parts :: "TypedPart list" and i
  assume "i < length parts"
  then show "((parts, Suc i), (parts, i)) \<in> measure (\<lambda>(parts, i). length parts - i)"
    by simp
qed

declare collapse_from.simps [simp del]

definition collapseLiterals :: "TypedPart list \<Rightarrow> TypedPart list" where
  "collapseLiterals parts = collapse_from parts 0"

text \<open>
  \<^verbatim>\<open>FormatToParts.formatToParts\<close>. \<open>actualNamesPattern\<close> is the outcome of the lazy getter
  of that name (it throws when a match of the learning pattern names no group);
  \<open>formatter\<close> is \<^verbatim>\<open>this.formatter.format\<close>, the host's \<^verbatim>\<open>Intl.DateTimeFormat\<close>, which
  renders a date or throws; \<open>months\<close> and \<open>weekdays\<close> are the engine's lookups.
\<close>

definition formatToParts ::
  "('dt \<Rightarrow> js_error + string) \<Rightarrow> js_error + NamedRegExp \<Rightarrow> DatumLookup \<Rightarrow> DatumLookup \<Rightarrow> 'dt
     \<Rightarrow> js_error + TypedPart list" where
  "formatToParts formatter actualNamesPattern months weekdays date =
     (case actualNamesPattern of
        Inl e \<Rightarrow> Inl e
      | Inr regex \<Rightarrow>
          (case formatter date of
             Inl e \<Rightarrow> Inl e
           | Inr actualResult \<Rightarrow>
               (case NamedRegExp_match regex actualResult of
                  None \<Rightarrow> Inl (Error (rsource regex @ '' did not match '' @ actualResult))
                | Some match \<Rightarrow>
                    Inr (collapseLiterals
                           (map (\<lambda>m. \<lparr>ptype = getType months weekdays (mname m) (mvalue m),
                                       pvalue = mvalue m\<rparr>) match)))))"

text \<open>No two consecutive parts are both of type \<^verbatim>\<open>literal\<close>.\<close>

fun no_adjacent_literals :: "TypedPart list \<Rightarrow> bool" where
  "no_adjacent_literals (x # y # r) =
     (\<not> (ptype x = ''literal'' \<and> ptype y = ''literal'') \<and> no_adjacent_literals (y # r))"
| "no_adjacent_literals _ = True"

section \<open>Scanning a text with a pattern (\<^verbatim>\<open>NamedRegExp.iterate\<close>)\<close>

text \<open>
  Modelled from the spec: \<^verbatim>\<open>NamedRegExp.iterate\<close> and \<^verbatim>\<open>isNamedMatch\<close> (module
  \<^verbatim>\<open>../characters\<close>) are not among the sources. \<^verbatim>\<open>iterate\<close> walks the text from left to
  right and yields, in order, the named groups of every match and the text of every
  non-empty stretch between matches. A pattern used this way is a function from the
  remaining text to the length matched at its head and the named groups of that match;
  a match of length zero is not a match.
\<close>

datatype MatchOrNot = Matched "NamedMatch list" | Unmatched string

type_synonym PrefixRegExp = "string \<Rightarrow> (nat \<times> NamedMatch list) option"

definition flush :: "string \<Rightarrow> MatchOrNot list" where
  "flush pending = (if pending = [] then [] else [Unmatched pending])"

definition match_here :: "PrefixRegExp \<Rightarrow> string \<Rightarrow> (nat \<times> NamedMatch list) option" where
  "match_here regex s =
     (case regex s of
        None \<Rightarrow> None
      | Some (n, ms) \<Rightarrow> if 0 < n \<and> n \<le> length s then Some (n, ms) else None)"

function iterate_from :: "PrefixRegExp \<Rightarrow> string \<Rightarrow> string \<Rightarrow> MatchOrNot list" where
  "iterate_from regex pending s =
     (if s = [] then flush pending
      else case match_here regex s of
             Some (n, ms) \<Rightarrow> flush pending @ Matched ms # iterate_from regex [] (drop n s)
           | None \<Rightarrow> iterate_from regex (pending @ [hd s]) (tl s))"
  by pat_completeness auto
termination
proof (relation "measure (\<lambda>(regex, pending, s). length s)")
  show "wf (measure (\<lambda>(regex, pending, s). length s))" by simp
next
  fix regex :: PrefixRegExp and pending s :: string and x2 :: "nat \<times> NamedMatch list"
    and n :: nat and ms :: "NamedMatch list"
  assume "s \<noteq> []" "match_here regex s = Some x2" "(n, ms) = x2"
  then have "0 < n \<and> n \<le> length s"
    by (auto simp: match_here_def split: option.splits prod.splits if_splits)
  then show "((regex, [], drop n s), (regex, pending, s))
      \<in> measure (\<lambda>(regex, pending, s). length s)"
    using \<open>s \<noteq> []\<close> by simp
next
  fix regex :: PrefixRegExp and pending s :: string
  assume "s \<noteq> []"
  then show "((regex, pending @ [hd s], tl s), (regex, pending, s))
      \<in> measure (\<lambda>(regex, pending, s). length s)"
    by simp
qed

declare iterate_from.simps [simp del]

definition iterate :: "PrefixRegExp \<Rightarrow> string \<Rightarrow> MatchOrNot list" where
  "iterate regex s = iterate_from regex [] s"

text \<open>
  A pattern \<^verbatim>\<open>(?<name>X+)\<close> for a class \<open>X\<close> of characters: the longest non-empty run
  of characters of the class.
\<close>

definition run_regex :: "string \<Rightarrow> (char \<Rightarrow> bool) \<Rightarrow> PrefixRegExp" where
  "run_regex nm cls s =
     (let n = length (takeWhile cls s)
      in if n = 0 then None else Some (n, [\<lparr>mname = nm, mvalue = take n s\<rparr>]))"

section \<open>Money: parts from a format, pattern builder, part parser\<close>

text \<open>
  \<^verbatim>\<open>IntegerGroupParser\<close>: its constructor is private and its two instances are
  \<^verbatim>\<open>digits\<close>, with pattern \<^verbatim>\<open>(?<integer>\d+)\<close>, and \<^verbatim>\<open>integerFormat\<close>, with pattern
  \<^verbatim>\<open>(?<integer>i+)\<close>; an instance is the class of characters of its pattern.
  \<^verbatim>\<open>parse\<close> labels each match \<^verbatim>\<open>integer\<close> (the value of its first group, \<^verbatim>\<open>m[0].value\<close>;
  a match of these patterns has exactly one group) and each stretch between matches
  \<^verbatim>\<open>group\<close>.
\<close>

type_synonym IntegerGroupParser = "char \<Rightarrow> bool"


definition IntegerGroupParser_integerFormat :: IntegerGroupParser where
  "IntegerGroupParser_integerFormat = (\<lambda>c. c = CHR ''i'')"

definition integer_or_group :: "MatchOrNot \<Rightarrow> TypedPart" where
  "integer_or_group m =
     (case m of
        Matched ms \<Rightarrow>
          \<lparr>ptype = ''integer'', pvalue = (case ms of m0 # _ \<Rightarrow> mvalue m0 | [] \<Rightarrow> [])\<rparr>
      | Unmatched t \<Rightarrow> \<lparr>ptype = ''group'', pvalue = t\<rparr>)"

definition IntegerGroupParser_parse :: "IntegerGroupParser \<Rightarrow> string \<Rightarrow> TypedPart list" where
  "IntegerGroupParser_parse p v = map integer_or_group (iterate (run_regex ''integer'' p) v)"

text \<open>
  The pattern of \<^verbatim>\<open>PartsFromFormat.format\<close>,
  \<^verbatim>\<open>(?:(?<integer-group>(?:i.*i|i))(?<decimal>[^f])(?<fraction>f+)|(?<currency>C+))\<close>,
  at the head of a text. First alternative: the integer group is \<^verbatim>\<open>i.*i\<close> with the greedy
  \<^verbatim>\<open>.*\<close> (no line terminator) backed off from the longest, and then the single \<^verbatim>\<open>i\<close>; after
  it one character other than \<^verbatim>\<open>f\<close> (of one UTF-16 unit, however many bytes) and the longest
  run of \<^verbatim>\<open>f\<close>.
  Second alternative: the longest run of \<^verbatim>\<open>C\<close>. The groups are listed in the order of the
  pattern; a group that took no part has the empty value.
\<close>

text \<open>
  The line terminators, which \<^verbatim>\<open>.\<close> does not take: line feed, carriage return, U+2028
  and U+2029.
\<close>

definition line_terminator :: "int \<Rightarrow> bool" where
  "line_terminator cp = within [(0x0A, 0x0A), (0x0D, 0x0D), (0x2028, 0x2029)] cp"

fun no_terminators :: "int list \<Rightarrow> bool" where
  "no_terminators [] = True"
| "no_terminators (cp # r) = (if line_terminator cp then False else no_terminators r)"

definition no_line_terminator :: "string \<Rightarrow> bool" where
  "no_line_terminator t = no_terminators (code_points t)"

definition integer_group_cands :: "string \<Rightarrow> nat list" where
  "integer_group_cands s =
     (if s \<noteq> [] \<and> hd s = CHR ''i''
      then rev [l \<leftarrow> [2 ..< Suc (length s)].
                  s ! (l - 1) = CHR ''i'' \<and> no_line_terminator (take (l - 2) (tl s))]
           @ [1]
      else [])"

definition number_alternative :: "string \<Rightarrow> (nat \<times> NamedMatch list) option" where
  "number_alternative s =
     first_some
       (\<lambda>l. case head_char (drop l s) of
               None \<Rightarrow> None
             | Some (cp, w) \<Rightarrow>
                 (let fs = drop (l + w) s;
                      n = length (takeWhile (\<lambda>c. c = CHR ''f'') fs)
                  in if cp \<noteq> 102 \<and> cp < 0x10000 \<and> 0 < n
                     then Some (l + w + n,
                            [\<lparr>mname = ''integer-group'', mvalue = take l s\<rparr>,
                             \<lparr>mname = ''decimal'', mvalue = take w (drop l s)\<rparr>,
                             \<lparr>mname = ''fraction'', mvalue = take n fs\<rparr>,
                             \<lparr>mname = ''currency'', mvalue = []\<rparr>])
                     else None))
       (integer_group_cands s)"

definition currency_alternative :: "string \<Rightarrow> (nat \<times> NamedMatch list) option" where
  "currency_alternative s =
     (let n = length (takeWhile (\<lambda>c. c = CHR ''C'') s)
      in if n = 0 then None
         else Some (n,
                [\<lparr>mname = ''integer-group'', mvalue = []\<rparr>,
                 \<lparr>mname = ''decimal'', mvalue = []\<rparr>,
                 \<lparr>mname = ''fraction'', mvalue = []\<rparr>,
                 \<lparr>mname = ''currency'', mvalue = take n s\<rparr>]))"

definition format_regex :: PrefixRegExp where
  "format_regex s =
     (case number_alternative s of Some r \<Rightarrow> Some r | None \<Rightarrow> currency_alternative s)"

text \<open>
  \<^verbatim>\<open>PartsFromFormat.parse\<close>. \<^verbatim>\<open>matchOrNot.filter(m => Boolean(m.value))\<close> keeps the groups
  with a non-empty value; reading \<^verbatim>\<open>.name\<close> of a missing first or third element is a
  \<^verbatim>\<open>TypeError\<close>.
\<close>

record PartsFromFormat =
  formatRegex :: PrefixRegExp
  integerGroupParser :: IntegerGroupParser

definition part_of :: "NamedMatch \<Rightarrow> TypedPart" where
  "part_of m = \<lparr>ptype = mname m, pvalue = mvalue m\<rparr>"

definition parts_of_match :: "PartsFromFormat \<Rightarrow> MatchOrNot \<Rightarrow> js_error + TypedPart list" where
  "parts_of_match p matchOrNot =
     (case matchOrNot of
        Unmatched t \<Rightarrow> Inr [\<lparr>ptype = ''literal'', pvalue = t\<rparr>]
      | Matched ms \<Rightarrow>
          (case filter (\<lambda>m. mvalue m \<noteq> []) ms of
             [] \<Rightarrow> Inl (Error ''TypeError'')
           | integerGroupOrCurrency # rest \<Rightarrow>
               if mname integerGroupOrCurrency = ''currency''
               then Inr [part_of integerGroupOrCurrency]
               else
                 (let integerAndGroups =
                        IntegerGroupParser_parse (integerGroupParser p)
                          (mvalue integerGroupOrCurrency)
                  in case rest of
                       [] \<Rightarrow> Inr integerAndGroups
                     | decimal # rest' \<Rightarrow>
                         (case rest' of
                            [] \<Rightarrow> Inl (Error ''TypeError'')
                          | fractions # _ \<Rightarrow>
                              Inr (integerAndGroups @ [part_of decimal, part_of fractions])))))"

fun flatMap_result :: "('a \<Rightarrow> js_error + 'b list) \<Rightarrow> 'a list \<Rightarrow> js_error + 'b list" where
  "flatMap_result f [] = Inr []"
| "flatMap_result f (x # xs) =
     (case f x of
        Inl e \<Rightarrow> Inl e
      | Inr ys \<Rightarrow> (case flatMap_result f xs of Inl e \<Rightarrow> Inl e | Inr zs \<Rightarrow> Inr (ys @ zs)))"

definition PartsFromFormat_parse :: "PartsFromFormat \<Rightarrow> string \<Rightarrow> js_error + TypedPart list" where
  "PartsFromFormat_parse p fmt = flatMap_result (parts_of_match p) (iterate (formatRegex p) fmt)"

definition PartsFromFormat_format :: PartsFromFormat where
  "PartsFromFormat_format =
     \<lparr>formatRegex = format_regex, integerGroupParser = IntegerGroupParser_integerFormat\<rparr>"

text \<open>
  \<^verbatim>\<open>Spaces\<close>: the space, the no-break space (U+00A0) and the narrow no-break space
  (U+202F). A string holds the UTF-8 bytes of the JavaScript string, so the two
  characters beyond ASCII are two and three bytes.
\<close>

definition Spaces_codes :: "string list" where
  "Spaces_codes = [[CHR 0x20], [CHR 0xC2, CHR 0xA0], [CHR 0xE2, CHR 0x80, CHR 0xAF]]"

definition Spaces_spaces :: string where
  "Spaces_spaces = concat Spaces_codes"

definition Spaces_handle :: "string \<Rightarrow> string" where
  "Spaces_handle v = (if v \<in> set Spaces_codes then Spaces_spaces else v)"

text \<open>
  Modelled from the spec: the transducer \<^verbatim>\<open>dedupe\<close> and the comparator \<^verbatim>\<open>by\<close> (modules
  \<^verbatim>\<open>../transducers\<close> and \<^verbatim>\<open>../collections\<close>) are not among the sources.
  \<^verbatim>\<open>dedupe(by('type'))\<close> drops an element equal, by its type, to the element before it; the
  test of \<^verbatim>\<open>dedupe\<close> reads \<^verbatim>\<open>dedupe().sync(characters("Leeeeroy"))\<close> is
  \<^verbatim>\<open>'L','e','r','o','y'\<close>.
\<close>

fun dedupe_by :: "('a \<Rightarrow> 'b) \<Rightarrow> 'a list \<Rightarrow> 'a list" where
  "dedupe_by f (x # y # r) =
     (if f x = f y then dedupe_by f (x # r) else x # dedupe_by f (y # r))"
| "dedupe_by f xs = xs"

text \<open>
  \<^verbatim>\<open>RegexBuilder.buildFrom(parts, locale)\<close>. \<open>symbols\<close> is
  \<^verbatim>\<open>CurrencySymbols.get(locale).pattern\<close>, the alternation of the currency names of a
  locale (\<open>None\<close> is the omitted locale). \<open>bs\<close> is the backslash.
\<close>

definition bs :: string where
  "bs = [CHR 0x5C]"

definition pattern_of_part :: "string \<Rightarrow> string \<Rightarrow> TypedPart \<Rightarrow> string" where
  "pattern_of_part currencyPattern grp part =
     (if ptype part = ''currency'' then ''(?<currency>'' @ currencyPattern @ '')''
      else if ptype part = ''decimal'' then ''(?<decimal>['' @ pvalue part @ '']?)''
      else if ptype part = ''fraction'' then ''(?<fraction>'' @ bs @ ''d*)''
      else if ptype part = ''integer'' then
        ''(?<integer-group>['' @ bs @ ''d'' @ Spaces_handle grp @ '']*'' @ bs @ ''d+)''
      else ''(?<'' @ ptype part @ ''>['' @ pvalue part @ '' ]?)'')"

definition buildFrom :: "(string option \<Rightarrow> string) \<Rightarrow> TypedPart list \<Rightarrow> string option \<Rightarrow> string" where
  "buildFrom symbols parts locale =
     (let grp = (case map pvalue (filter (\<lambda>p. ptype p = ''group'') parts) of
                   [] \<Rightarrow> []
                 | g # _ \<Rightarrow> g);
          noGroups = dedupe_by ptype (filter (\<lambda>p. ptype p \<noteq> ''group'') parts)
      in concat (map (pattern_of_part (symbols locale) grp) noGroups)
           @ ''(?='' @ bs @ ''s|$)'')"

text \<open>
  Money \<^verbatim>\<open>Options\<close>: \<^verbatim>\<open>{strategy?, format?}\<close>; only \<^verbatim>\<open>format\<close> is read here.
  \<^verbatim>\<open>buildFromOptions\<close>: with a truthy \<^verbatim>\<open>options.format\<close> the pattern is built from the
  parts of the format, with no locale; otherwise \<^verbatim>\<open>buildPattern(locale)\<close> builds it from
  \<^verbatim>\<open>partsFrom(exampleMoney, locale)\<close>, the host's parts of the example amount, given here
  as \<open>exampleParts\<close>.
\<close>

record MoneyOptions =
  format :: "string option"

definition buildPattern ::
  "(string option \<Rightarrow> string) \<Rightarrow> (string option \<Rightarrow> TypedPart list) \<Rightarrow> string option \<Rightarrow> string" where
  "buildPattern symbols exampleParts locale = buildFrom symbols (exampleParts locale) locale"

definition buildFromOptions ::
  "(string option \<Rightarrow> string) \<Rightarrow> (string option \<Rightarrow> TypedPart list) \<Rightarrow> string option
     \<Rightarrow> MoneyOptions option \<Rightarrow> js_error + string" where
  "buildFromOptions symbols exampleParts locale options =
     (case options of
        None \<Rightarrow> Inr (buildPattern symbols exampleParts locale)
      | Some opts \<Rightarrow>
          (case format opts of
             None \<Rightarrow> Inr (buildPattern symbols exampleParts locale)
           | Some fmt \<Rightarrow>
               if fmt = [] then Inr (buildPattern symbols exampleParts locale)
               else (case PartsFromFormat_parse PartsFromFormat_format fmt of
                       Inl e \<Rightarrow> Inl e
                     | Inr parts \<Rightarrow> Inr (buildFrom symbols parts None))))"


text \<open>
  Modelled from the spec: \<^verbatim>\<open>NamedRegExp\<close>, \<^verbatim>\<open>namedRegexParser\<close> and \<^verbatim>\<open>mappingParser\<close>
  (modules \<^verbatim>\<open>../characters\<close> and \<^verbatim>\<open>../parsing\<close>) are not among the sources, and neither is
  the \<^verbatim>\<open>pattern\<close> of a lookup, which the spec gives as the alternation of its names, each
  escaped. \<^verbatim>\<open>NamedRegExp.create(pattern)\<close> is read here for the patterns that
  \<^verbatim>\<open>RegexBuilder.buildFrom\<close> emits: named groups one after the other, then the lookahead
  \<^verbatim>\<open>(?=\s|$)\<close>, with nothing that ties the match to the start of the text. The body of a
  group is an alternation of names, \<^verbatim>\<open>[...]?\<close>, \<^verbatim>\<open>\d*\<close> or \<^verbatim>\<open>[...]*\d+\<close>. A pattern of another
  shape is outside this reading (\<open>None\<close>); a class whose range is out of order is the
  host's \<^verbatim>\<open>SyntaxError\<close>.
\<close>






















section \<open>Date format templates (\<^verbatim>\<open>formatFrom\<close>)\<close>

function string_of_nat :: "nat \<Rightarrow> string" where
  "string_of_nat n =
     (if n < 10 then [''0123456789'' ! n]
      else string_of_nat (n div 10) @ [''0123456789'' ! (n mod 10)])"
  by pat_completeness auto
termination
  by (relation "measure (\<lambda>n. n)") auto

declare string_of_nat.simps [simp del]

text \<open>
  \<^verbatim>\<open>formatFrom(type, length)\<close>: the width that the number of sentinel characters of a date
  template stands for; any other pair is \<^verbatim>\<open>Illegal Argument\<close>.
\<close>

definition formatFrom :: "string \<Rightarrow> nat \<Rightarrow> js_error + string" where
  "formatFrom t len =
     (if t = ''year'' \<and> len = 4 then Inr ''numeric''
      else if t = ''year'' \<and> len = 2 then Inr ''2-digit''
      else if t = ''month'' \<and> len = 4 then Inr ''long''
      else if t = ''month'' \<and> len = 3 then Inr ''short''
      else if t = ''month'' \<and> len = 2 then Inr ''2-digit''
      else if t = ''month'' \<and> len = 1 then Inr ''numeric''
      else if t = ''day'' \<and> len = 2 then Inr ''2-digit''
      else if t = ''day'' \<and> len = 1 then Inr ''numeric''
      else if t = ''weekday'' \<and> len = 4 then Inr ''long''
      else if t = ''weekday'' \<and> len = 3 then Inr ''short''
      else Inl (Error (''Illegal Argument: '' @ t @ '' '' @ string_of_nat len)))"

section \<open>Currency decimals (\<^verbatim>\<open>decimalsFor\<close>, \<^verbatim>\<open>Formatter.create\<close>)\<close>

text \<open>
  The generated table \<^verbatim>\<open>currencies\<close> is an object literal
  \<^verbatim>\<open>{ "GBP": {decimals: 2}, ... }\<close>; it is a parameter, a map from its own keys to
  \<^verbatim>\<open>Currency\<close> records. Reading \<^verbatim>\<open>currencies[code]\<close> for a key the table does not own
  follows the prototype chain: for a property name of \<^verbatim>\<open>Object.prototype\<close> the value is
  that inherited function or object, which is truthy and has no \<^verbatim>\<open>decimals\<close>, so the
  function returns \<^verbatim>\<open>undefined\<close> (\<open>None\<close>); for any other key it is \<^verbatim>\<open>undefined\<close>, and the
  function returns 2.
\<close>

record Currency =
  decimals :: int

type_synonym Currencies = "string \<rightharpoonup> Currency"

definition object_prototype_names :: "string list" where
  "object_prototype_names =
     [''constructor'', ''hasOwnProperty'', ''isPrototypeOf'', ''propertyIsEnumerable'',
      ''toLocaleString'', ''toString'', ''valueOf'', ''__proto__'',
      ''__defineGetter__'', ''__defineSetter__'', ''__lookupGetter__'', ''__lookupSetter__'']"

definition decimalsFor :: "Currencies \<Rightarrow> string \<Rightarrow> int option" where
  "decimalsFor currencies code =
     (case currencies code of
        Some currency \<Rightarrow> Some (decimals currency)
      | None \<Rightarrow> if code \<in> set object_prototype_names then None else Some 2)"

text \<open>
  \<^verbatim>\<open>Formatter.create\<close> hands the host's \<^verbatim>\<open>Intl.NumberFormat\<close> these options; the model
  is the options object.
\<close>

record NumberFormatOptions =
  currencyDisplay :: string
  currency :: string
  style :: string
  minimumFractionDigits :: "int option"
  maximumFractionDigits :: "int option"

definition Formatter_create :: "Currencies \<Rightarrow> string \<Rightarrow> string option \<Rightarrow> NumberFormatOptions" where
  "Formatter_create currencies cur currencyDisplayArg =
     \<lparr>currencyDisplay = (case currencyDisplayArg of None \<Rightarrow> ''code'' | Some d \<Rightarrow> d),
      currency = cur,
      style = ''currency'',
      minimumFractionDigits = Some 0,
      maximumFractionDigits = decimalsFor currencies cur\<rparr>"

section \<open>Constructing the date formatter (\<^verbatim>\<open>ImprovedDateTimeFormat.create\<close>)\<close>

text \<open>
  What this function can detect depends on which object the host is handed, so objects
  live in a store: an object is the list of its own properties, an address is an index
  of the store, and an object spread \<^verbatim>\<open>{...o}\<close> allocates a new object.

  The host's \<^verbatim>\<open>Intl.DateTimeFormat\<close> constructor is a parameter: \<open>construct\<close> is the
  formatter it returns (or the error it throws) for a locale and the properties of the
  options object it is given, and \<open>leaves\<close> is the state in which it leaves that object:
  the identity on a conforming host, properties removed on a host with the Internet
  Explorer 11 defect that the comment \<^verbatim>\<open>// Detect IE 11 bug\<close> speaks of.
\<close>

type_synonym js_object = "(string \<times> string) list"

type_synonym store = "js_object list"

definition alloc :: "store \<Rightarrow> js_object \<Rightarrow> nat \<times> store" where
  "alloc h obj = (length h, h @ [obj])"

record 'f Host =
  construct :: "string \<Rightarrow> js_object \<Rightarrow> js_error + 'f"
  leaves :: "string \<Rightarrow> js_object \<Rightarrow> js_object"

text \<open>\<^verbatim>\<open>new Intl.DateTimeFormat(locale, arg)\<close> on the object at address \<open>arg\<close>.\<close>

definition new_DateTimeFormat ::
  "'f Host \<Rightarrow> string \<Rightarrow> nat \<Rightarrow> store \<Rightarrow> (js_error + 'f) \<times> store" where
  "new_DateTimeFormat host locale arg h =
     (construct host locale (h ! arg), h[arg := leaves host locale (h ! arg)])"

text \<open>
  \<^verbatim>\<open>Formatters.dateTimeFormat(locale, options)\<close>:
  \<^verbatim>\<open>new Intl.DateTimeFormat(locale, {...options, timeZone: 'UTC'})\<close>.
\<close>

definition dateTimeFormat ::
  "'f Host \<Rightarrow> string \<Rightarrow> nat \<Rightarrow> store \<Rightarrow> (js_error + 'f) \<times> store" where
  "dateTimeFormat host locale options h =
     (let (arg, h1) = alloc h (AList.update ''timeZone'' ''UTC'' (h ! options))
      in new_DateTimeFormat host locale arg h1)"

text \<open>
  \<^verbatim>\<open>JSON.stringify\<close> of an object whose values are strings (no character of the keys and
  values needs an escape in the option objects of this code).
\<close>

definition dq :: string where
  "dq = [CHR 0x22]"

fun json_members :: "js_object \<Rightarrow> string" where
  "json_members [] = []"
| "json_members [(k, v)] = dq @ k @ dq @ '':'' @ dq @ v @ dq"
| "json_members ((k, v) # kvs) = dq @ k @ dq @ '':'' @ dq @ v @ dq @ '','' @ json_members kvs"

definition JSON_stringify :: "js_object \<Rightarrow> string" where
  "JSON_stringify obj = ''{'' @ json_members obj @ ''}''"

text \<open>
  \<^verbatim>\<open>ImprovedDateTimeFormat.create(locale, options)\<close>:
  \<^verbatim>\<open>clone = {...options}\<close>, \<^verbatim>\<open>keys = Object.keys(clone).length\<close>,
  \<^verbatim>\<open>result = Formatters.dateTimeFormat(locale, clone)\<close>, and the check
  \<^verbatim>\<open>Object.keys(clone).length != keys\<close>.
\<close>

definition ImprovedDateTimeFormat_create ::
  "'f Host \<Rightarrow> string \<Rightarrow> nat \<Rightarrow> store \<Rightarrow> (js_error + 'f) \<times> store" where
  "ImprovedDateTimeFormat_create host locale options h =
     (let (clone, h1) = alloc h (h ! options);
          keys = length (h1 ! clone);
          (result, h2) = dateTimeFormat host locale clone h1
      in case result of
           Inl e \<Rightarrow> (Inl e, h2)
         | Inr r \<Rightarrow>
             if length (h2 ! clone) \<noteq> keys
             then (Inl (Error (''Unsupported DateTimeFormat options provided: ''
                               @ JSON_stringify (h2 ! options))), h2)
             else (Inr r, h2))"

section \<open>The generated date parser (\<^verbatim>\<open>RegexParser\<close>, \<^verbatim>\<open>RegexGroups\<close>)\<close>

text \<open>
  A JavaScript number read from a text is an integer or \<^verbatim>\<open>NaN\<close>. A
  \<^verbatim>\<open>RegExpMatchArray\<close> is the list of the groups of a match, the whole match at index 0;
  a group that took no part, and any index outside the array, is \<^verbatim>\<open>undefined\<close>.
\<close>

datatype jsnum = NaN | Num int

type_synonym RegExpMatchArray = "string option list"

definition group_at :: "RegExpMatchArray \<Rightarrow> nat option \<Rightarrow> string option" where
  "group_at m index =
     (case index of None \<Rightarrow> None | Some i \<Rightarrow> if i < length m then m ! i else None)"

text \<open>
  \<^verbatim>\<open>parseInt(text)\<close> with no radix: leading white space, a sign, the prefix \<^verbatim>\<open>0x\<close> for
  radix 16, then the longest run of digits of the radix; \<^verbatim>\<open>NaN\<close> when there is none and
  for \<^verbatim>\<open>undefined\<close>. The result is the integer that the digits denote; the host gives the
  nearest double, which is that integer below \<open>2 ^ 53\<close> (the groups read here hold at
  most four digits), and a rounded one beyond, which is not modelled. White space is
  that of ASCII.
\<close>

definition digit_value :: "char \<Rightarrow> nat option" where
  "digit_value c = map_of (zip ''0123456789abcdefABCDEF'' ([0 ..< 16] @ [10 ..< 16])) c"

definition is_whitespace :: "char \<Rightarrow> bool" where
  "is_whitespace c = (c \<in> set [CHR 0x09, CHR 0x0A, CHR 0x0B, CHR 0x0C, CHR 0x0D, CHR 0x20])"

definition parseInt :: "string option \<Rightarrow> jsnum" where
  "parseInt v =
     (case v of
        None \<Rightarrow> NaN
      | Some s \<Rightarrow>
          (let t = dropWhile is_whitespace s;
               negative = (take 1 t = ''-'');
               u = (if take 1 t = ''-'' \<or> take 1 t = ''+'' then drop 1 t else t);
               hex = (take 2 u = ''0x'' \<or> take 2 u = ''0X'');
               radix = (if hex then 16 else 10);
               w = (if hex then drop 2 u else u);
               ds = takeWhile (\<lambda>c. case digit_value c of Some d \<Rightarrow> d < radix | None \<Rightarrow> False) w;
               n = foldl (\<lambda>a c. a * radix + (case digit_value c of Some d \<Rightarrow> d | None \<Rightarrow> 0)) 0 ds
           in if ds = [] then NaN
              else Num (if negative then - int n else int n)))"

text \<open>
  \<^verbatim>\<open>OptionHandler\<close> and the three handlers \<^verbatim>\<open>numeric\<close>, \<^verbatim>\<open>parseMonth\<close>, \<^verbatim>\<open>parseWeekday\<close>.
  Reading \<^verbatim>\<open>.number\<close> of a falsy lookup result is a \<^verbatim>\<open>TypeError\<close>.
\<close>

type_synonym OptionHandler = "RegExpMatchArray \<Rightarrow> js_error + jsnum"

definition numeric :: "nat option \<Rightarrow> OptionHandler" where
  "numeric index m = Inr (parseInt (group_at m index))"

definition parseMonth :: "nat option \<Rightarrow> DatumLookup \<Rightarrow> OptionHandler" where
  "parseMonth index months m =
     (case months (group_at m index) of
        Inl e \<Rightarrow> Inl e
      | Inr None \<Rightarrow> Inl (Error ''TypeError'')
      | Inr (Some d) \<Rightarrow> Inr (Num (dnumber d)))"

definition parseWeekday :: "nat option \<Rightarrow> DatumLookup \<Rightarrow> OptionHandler" where
  "parseWeekday index weekdays m =
     (case weekdays (group_at m index) of
        Inl e \<Rightarrow> Inl e
      | Inr None \<Rightarrow> Inl (Error ''TypeError'')
      | Inr (Some d) \<Rightarrow> Inr (Num (dnumber d)))"

record RegexGroups =
  year :: OptionHandler
  month :: OptionHandler
  day :: OptionHandler
  weekday :: OptionHandler

text \<open>
  The \<^verbatim>\<open>groups\<close> object that \<^verbatim>\<open>RegexBuilder.regexParser\<close> builds; \<open>names\<close> is the index
  of each named group, as \<^verbatim>\<open>namedGroups\<close> (module \<^verbatim>\<open>../characters\<close>) returns it.
\<close>

definition RegexBuilder_groups ::
  "(string \<Rightarrow> nat option) \<Rightarrow> DatumLookup \<Rightarrow> DatumLookup \<Rightarrow> RegexGroups" where
  "RegexBuilder_groups names months weekdays =
     \<lparr>year = numeric (names ''year''),
      month = parseMonth (names ''month'') months,
      day = numeric (names ''day''),
      weekday = parseWeekday (names ''weekday'') weekdays\<rparr>"

text \<open>
  The host's \<^verbatim>\<open>RegExp\<close> is a parameter: for a text and a start index (\<^verbatim>\<open>lastIndex\<close>) the
  leftmost match from there on and the index after it, or no match. \<^verbatim>\<open>text.match(regex)\<close>
  of a regex without the \<^verbatim>\<open>g\<close> flag is the match from index 0. \<open>toLower\<close> is the host's
  \<^verbatim>\<open>toLocaleLowerCase(locale)\<close>.
\<close>

type_synonym RegExp = "string \<Rightarrow> nat \<Rightarrow> (RegExpMatchArray \<times> nat) option"

record RegexParser =
  regex :: RegExp
  source :: string
  groups :: RegexGroups
  localeName :: string
  toLower :: "string \<Rightarrow> string"

text \<open>
  \<^verbatim>\<open>date(this.groups.year(match), this.groups.month(match), this.groups.day(match))\<close>:
  the arguments are evaluated from left to right, then \<^verbatim>\<open>date\<close> (imported from
  \<^verbatim>\<open>./index\<close>; the parameter \<open>mkDate\<close>) builds the \<^verbatim>\<open>Date\<close> or throws.
\<close>

definition assemble ::
  "(jsnum \<Rightarrow> jsnum \<Rightarrow> jsnum \<Rightarrow> js_error + 'd) \<Rightarrow> RegexGroups \<Rightarrow> RegExpMatchArray \<Rightarrow> js_error + 'd" where
  "assemble mkDate g m =
     (case year g m of
        Inl e \<Rightarrow> Inl e
      | Inr y \<Rightarrow>
          (case month g m of
             Inl e \<Rightarrow> Inl e
           | Inr mo \<Rightarrow>
               (case day g m of
                  Inl e \<Rightarrow> Inl e
                | Inr d \<Rightarrow> mkDate y mo d)))"

definition RegexParser_parse ::
  "(jsnum \<Rightarrow> jsnum \<Rightarrow> jsnum \<Rightarrow> js_error + 'd) \<Rightarrow> RegexParser \<Rightarrow> string \<Rightarrow> js_error + 'd" where
  "RegexParser_parse mkDate p v =
     (let lower = toLower p v in
      case regex p lower 0 of
        None \<Rightarrow>
          Inl (Error (''Locale '' @ dq @ localeName p @ dq @ '' generated regex '' @ source p
                      @ '' did not match '' @ dq @ lower @ dq @ '' ''))
      | Some (m, _) \<Rightarrow> assemble mkDate (groups p) m)"

text \<open>
  \<^verbatim>\<open>RegexParser.parseAll\<close>: the \<^verbatim>\<open>while (true)\<close> loop over \<^verbatim>\<open>regex.exec(lower)\<close> of a copy
  of the regex with the \<^verbatim>\<open>g\<close> flag. Nothing bounds the loop, so not returning is the
  value \<open>None\<close>.
\<close>

partial_function (option) parseAll_loop ::
  "(jsnum \<Rightarrow> jsnum \<Rightarrow> jsnum \<Rightarrow> js_error + 'd) \<Rightarrow> RegexParser \<Rightarrow> string \<Rightarrow> nat \<Rightarrow> 'd list
     \<Rightarrow> (js_error + 'd list) option" where
  "parseAll_loop mkDate p lower lastIndex result =
     (case regex p lower lastIndex of
        None \<Rightarrow> Some (Inr result)
      | Some (m, next) \<Rightarrow>
          (case assemble mkDate (groups p) m of
             Inl e \<Rightarrow> Some (Inl e)
           | Inr d \<Rightarrow> parseAll_loop mkDate p lower next (result @ [d])))"

definition RegexParser_parseAll ::
  "(jsnum \<Rightarrow> jsnum \<Rightarrow> jsnum \<Rightarrow> js_error + 'd) \<Rightarrow> RegexParser \<Rightarrow> string
     \<Rightarrow> (js_error + 'd list) option" where
  "RegexParser_parseAll mkDate p v = parseAll_loop mkDate p (toLower p v) 0 []"

text \<open>\<^verbatim>\<open>class RegexParser implements DateParser\<close>; a \<^verbatim>\<open>Date\<close> object is truthy.\<close>

definition RegexParser_DateParser ::
  "(jsnum \<Rightarrow> jsnum \<Rightarrow> jsnum \<Rightarrow> js_error + 'd) \<Rightarrow> RegexParser \<Rightarrow> 'd DateParser" where
  "RegexParser_DateParser mkDate p =
     \<lparr>parse = (\<lambda>v. case RegexParser_parse mkDate p v of Inl e \<Rightarrow> Inl e | Inr d \<Rightarrow> Inr (Some d)),
      parseAll = RegexParser_parseAll mkDate p\<rparr>"

text \<open>
  The successive matches of a regex with the \<^verbatim>\<open>g\<close> flag on a text, from a start index until
  it finds no more: each with the index after it, where the next search starts.
\<close>

fun matches_from :: "RegExp \<Rightarrow> string \<Rightarrow> nat \<Rightarrow> (RegExpMatchArray \<times> nat) list \<Rightarrow> bool" where
  "matches_from rx s i [] = (rx s i = None)"
| "matches_from rx s i (me # rest) = (rx s i = Some me \<and> matches_from rx s (snd me) rest)"

section \<open>Concrete inputs\<close>

text \<open>
  Inputs at which the theorems below are evaluated: an English lookup table for months
  (numbers and names in lower case) and weekdays, the \<^verbatim>\<open>date\<close> function as the triple of
  its arguments, ASCII lower-casing, and a formatter that renders day, month and year as
  numbers with a separator between them.
\<close>

definition table_lookup :: "(string \<times> int) list \<Rightarrow> DatumLookup" where
  "table_lookup table v =
     (case v of
        None \<Rightarrow> Inl (Error ''TypeError'')
      | Some s \<Rightarrow>
          (case map_of table s of
             None \<Rightarrow> Inl (Error (''Unable to parse: '' @ s))
           | Some n \<Rightarrow> Inr (Some \<lparr>dname = s, dnumber = n\<rparr>)))"

definition en_months :: DatumLookup where
  "en_months = table_lookup
     [(''1'', 1), (''2'', 2), (''3'', 3), (''4'', 4), (''5'', 5), (''6'', 6), (''7'', 7),
      (''8'', 8), (''9'', 9), (''10'', 10), (''11'', 11), (''12'', 12),
      (''january'', 1), (''jan'', 1), (''february'', 2), (''feb'', 2), (''march'', 3),
      (''mar'', 3), (''april'', 4), (''apr'', 4), (''may'', 5), (''june'', 6), (''jun'', 6),
      (''july'', 7), (''jul'', 7), (''august'', 8), (''aug'', 8), (''september'', 9),
      (''sep'', 9), (''october'', 10), (''oct'', 10), (''november'', 11), (''nov'', 11),
      (''december'', 12), (''dec'', 12)]"

definition en_weekdays :: DatumLookup where
  "en_weekdays = table_lookup
     [(''monday'', 1), (''mon'', 1), (''tuesday'', 2), (''tue'', 2), (''wednesday'', 3),
      (''wed'', 3), (''thursday'', 4), (''thu'', 4), (''friday'', 5), (''fri'', 5),
      (''saturday'', 6), (''sat'', 6), (''sunday'', 7), (''sun'', 7)]"

definition triple_date :: "jsnum \<Rightarrow> jsnum \<Rightarrow> jsnum \<Rightarrow> js_error + (jsnum \<times> jsnum \<times> jsnum)" where
  "triple_date y m d = Inr (y, m, d)"

definition ascii_lower :: "string \<Rightarrow> string" where
  "ascii_lower s =
     map (\<lambda>c. case map_of (zip ''ABCDEFGHIJKLMNOPQRSTUVWXYZ'' ''abcdefghijklmnopqrstuvwxyz'') c of
                 Some l \<Rightarrow> l
               | None \<Rightarrow> c) s"

definition numeric_formatter :: "string \<Rightarrow> nat \<times> nat \<times> nat \<Rightarrow> js_error + string" where
  "numeric_formatter sep ymd =
     (case ymd of
        (y, m, d) \<Rightarrow> Inr (string_of_nat d @ sep @ string_of_nat m @ sep @ string_of_nat y))"

text \<open>
  The pattern of the emulation engine for day, month and year separated by literals, as
  \<^verbatim>\<open>actualNamesPattern\<close> emits it for a probe rendered \<^verbatim>\<open>20 nov 3333\<close> or \<^verbatim>\<open>20/11/3333\<close>.
  The separator goes into the class of the literal as it is: with a range out of order
  (\<^verbatim>\<open>/-.\<close>) the pattern is the host's \<^verbatim>\<open>SyntaxError\<close>. A separator that does not read as the
  content of one class is not covered by this example, which gives an error for it.
\<close>

definition day_month_year :: "string \<Rightarrow> js_error + NamedRegExp" where
  "day_month_year sep =
     (case class_of sep of
        SyntaxError \<Rightarrow> Inl (Error ''SyntaxError'')
      | NotOneClass \<Rightarrow> Inl (Error ''separator not covered'')
      | Class negated items \<Rightarrow> Inr
          \<lparr>rsource = ''day-month-year'',
           rgroups =
             [\<lparr>gname = ''day'', gcands = digits_body 1 2\<rparr>,
              \<lparr>gname = ''literal'', gcands = literal_body sep\<rparr>,
              \<lparr>gname = ''month'', gcands = month_body [''jan'', ''nov'', ''dec'']\<rparr>,
              \<lparr>gname = ''literal'', gcands = literal_body sep\<rparr>,
              \<lparr>gname = ''year'', gcands = digits_body 4 4\<rparr>]\<rparr>)"




definition example_currencies :: Currencies where
  "example_currencies = [''GBP'' \<mapsto> \<lparr>decimals = 2\<rparr>, ''JPY'' \<mapsto> \<lparr>decimals = 0\<rparr>]"

text \<open>Runs of the sentinel characters of a money format.\<close>

abbreviation Cs :: "nat \<Rightarrow> string" where
  "Cs n \<equiv> replicate n (CHR ''C'')"

abbreviation Is :: "nat \<Rightarrow> string" where
  "Is n \<equiv> replicate n (CHR ''i'')"

abbreviation Fs :: "nat \<Rightarrow> string" where
  "Fs n \<equiv> replicate n (CHR ''f'')"

text \<open>
  A host whose \<^verbatim>\<open>Intl.DateTimeFormat\<close> removes the \<^verbatim>\<open>weekday\<close> key from the options object
  it is given; the formatter it returns is shown as the locale and the options it read.
\<close>

definition key_removing_host :: "(string \<times> js_object) Host" where
  "key_removing_host =
     \<lparr>construct = (\<lambda>l obj. Inr (l, obj)),
      leaves = (\<lambda>l obj. AList.delete ''weekday'' obj)\<rparr>"

text \<open>
  Two parsers as \<^verbatim>\<open>RegexBuilder\<close> generates them for an English locale: weekday, day,
  month and year, and day, month and year. The host's regex is given by its matches on
  the texts used below: the groups of the match and the index after it.
\<close>

definition weekday_day_month_year_regex :: RegExp where
  "weekday_day_month_year_regex s i =
     (if i = 0 \<and> s = ''friday, 25 january 2019''
      then Some ([Some s, Some ''friday'', Some ''25'', Some ''january'', Some ''2019''], 23)
      else if i = 0 \<and> s = ''monday, 25 january 2019''
      then Some ([Some s, Some ''monday'', Some ''25'', Some ''january'', Some ''2019''], 23)
      else None)"

definition weekday_day_month_year_names :: "string \<Rightarrow> nat option" where
  "weekday_day_month_year_names =
     map_of [(''weekday'', 1), (''day'', 2), (''month'', 3), (''year'', 4)]"

definition weekday_day_month_year_parser :: RegexParser where
  "weekday_day_month_year_parser =
     \<lparr>regex = weekday_day_month_year_regex,
      source = ''weekday, day month year'',
      groups = RegexBuilder_groups weekday_day_month_year_names en_months en_weekdays,
      localeName = ''en-GB'',
      toLower = ascii_lower\<rparr>"

definition day_month_year_regex :: RegExp where
  "day_month_year_regex s i =
     (if i = 0 \<and> s = ''see you on 25 january 2019''
      then Some ([Some ''25 january 2019'', Some ''25'', Some ''january'', Some ''2019''], 26)
      else None)"

definition day_month_year_groups :: RegexGroups where
  "day_month_year_groups =
     RegexBuilder_groups (map_of [(''day'', 1), (''month'', 2), (''year'', 3)])
       en_months en_weekdays"

definition day_month_year_parser :: "string \<Rightarrow> RegexParser" where
  "day_month_year_parser src =
     \<lparr>regex = day_month_year_regex,
      source = src,
      groups = day_month_year_groups,
      localeName = ''en-GB'',
      toLower = ascii_lower\<rparr>"



definition good_upto :: "TypedPart list \<Rightarrow> nat \<Rightarrow> bool" where
  "good_upto parts i =
     (\<forall>j. Suc j < length parts \<and> j < i \<longrightarrow>
        \<not> (ptype (parts ! j) = ''literal'' \<and> ptype (parts ! Suc j) = ''literal''))"

section \<open>Theorems\<close>

subsection \<open>Literal collapsing\<close>

lemma merge_next_prefix: "Suc i < length parts \<Longrightarrow> j < i \<Longrightarrow> merge_next parts i ! j = parts ! j"
  by (simp add: merge_next_def nth_append)

lemma merge_next_at: "Suc i < length parts \<Longrightarrow> ptype (merge_next parts i ! i) = ptype (parts ! i)"
  by (simp add: merge_next_def nth_append)


lemma collapse_at_prefix: "i < length parts \<Longrightarrow> j < i \<Longrightarrow> collapse_at parts i ! j = parts ! j"
proof (induction parts i rule: collapse_at.induct)
  case (1 parts i)
  show ?case
  proof (cases "Suc i < length parts \<and> ptype (parts ! Suc i) = ''literal''")
    case True
    then have "i < length (merge_next parts i)" using length_merge_next[of i parts] by simp
    then have "collapse_at (merge_next parts i) i ! j = merge_next parts i ! j"
      using "1.IH" True "1.prems" by simp
    then show ?thesis using True "1.prems" collapse_at_step[of i parts] merge_next_prefix[of i parts j] by simp
  next
    case False
    then show ?thesis using collapse_at_stop[of i parts] by simp
  qed
qed

lemma collapse_at_type: "i < length parts \<Longrightarrow> ptype (collapse_at parts i ! i) = ptype (parts ! i)"
proof (induction parts i rule: collapse_at.induct)
  case (1 parts i)
  show ?case
  proof (cases "Suc i < length parts \<and> ptype (parts ! Suc i) = ''literal''")
    case True
    then have "i < length (merge_next parts i)" using length_merge_next[of i parts] by simp
    then have "ptype (collapse_at (merge_next parts i) i ! i) = ptype (merge_next parts i ! i)"
      using "1.IH" True by simp
    then show ?thesis using True collapse_at_step[of i parts] merge_next_at[of i parts] by simp
  next
    case False
    then show ?thesis using collapse_at_stop[of i parts] by simp
  qed
qed

lemma collapse_at_next:
  "\<not> (Suc i < length (collapse_at parts i) \<and> ptype (collapse_at parts i ! Suc i) = ''literal'')"
proof (induction parts i rule: collapse_at.induct)
  case (1 parts i)
  show ?case
  proof (cases "Suc i < length parts \<and> ptype (parts ! Suc i) = ''literal''")
    case True
    then show ?thesis using "1.IH" collapse_at_step[of i parts] by simp
  next
    case False
    then show ?thesis using collapse_at_stop[of i parts] by simp
  qed
qed


lemma good_upto_collapse_at:
  assumes "i < length parts" "good_upto parts i"
  shows "good_upto (collapse_at parts i) (Suc i)"
  unfolding good_upto_def
proof (intro allI impI)
  fix j
  let ?c = "collapse_at parts i"
  assume j: "Suc j < length ?c \<and> j < Suc i"
  have len: "length ?c \<le> length parts" by (rule length_collapse_at)
  show "\<not> (ptype (?c ! j) = ''literal'' \<and> ptype (?c ! Suc j) = ''literal'')"
  proof (cases "j = i")
    case True
    then show ?thesis using collapse_at_next[of i parts] j by simp
  next
    case False
    then have ji: "j < i" using j by simp
    have e1: "?c ! j = parts ! j" using collapse_at_prefix[OF assms(1) ji] .
    have e2: "ptype (?c ! Suc j) = ptype (parts ! Suc j)"
    proof (cases "Suc j = i")
      case True
      then show ?thesis using collapse_at_type[OF assms(1)] by simp
    next
      case False
      then have "Suc j < i" using ji by simp
      then show ?thesis using collapse_at_prefix[OF assms(1), of "Suc j"] by simp
    qed
    have "Suc j < length parts" using j len by simp
    then show ?thesis using assms(2) ji e1 e2 unfolding good_upto_def by simp
  qed
qed

lemma good_upto_collapse_from:
  "good_upto parts i \<Longrightarrow>
     good_upto (collapse_from parts i) (length (collapse_from parts i))"
proof (induction parts i rule: collapse_from.induct)
  case (1 parts i)
  show ?case
  proof (cases "i < length parts")
    case False
    then have "collapse_from parts i = parts" by (subst collapse_from.simps) simp
    moreover have "good_upto parts (length parts)"
      using "1.prems" False unfolding good_upto_def by auto
    ultimately show ?thesis by simp
  next
    case True
    show ?thesis
    proof (cases "ptype (parts ! i) = ''literal''")
      case lit: True
      have "collapse_from parts i = collapse_from (collapse_at parts i) (Suc i)"
        using True lit by (subst collapse_from.simps) simp
      then show ?thesis
        using "1.IH"(1)[OF True lit good_upto_collapse_at[OF True "1.prems"]] by simp
    next
      case nolit: False
      have eq: "collapse_from parts i = collapse_from parts (Suc i)"
        using True nolit by (subst collapse_from.simps) simp
      have "good_upto parts (Suc i)"
        unfolding good_upto_def
      proof (intro allI impI)
        fix j assume j: "Suc j < length parts \<and> j < Suc i"
        show "\<not> (ptype (parts ! j) = ''literal'' \<and> ptype (parts ! Suc j) = ''literal'')"
        proof (cases "j = i")
          case True then show ?thesis using nolit by simp
        next
          case False
          then have "j < i" using j by simp
          then show ?thesis using "1.prems" j unfolding good_upto_def by simp
        qed
      qed
      then show ?thesis using "1.IH"(2)[OF True nolit] eq by simp
    qed
  qed
qed

lemma no_adjacent_literals_iff: "no_adjacent_literals xs \<longleftrightarrow> good_upto xs (length xs)"
proof (induction xs rule: no_adjacent_literals.induct)
  case (1 x y r)
  have "good_upto (x # y # r) (length (x # y # r)) \<longleftrightarrow>
        \<not> (ptype x = ''literal'' \<and> ptype y = ''literal'') \<and> good_upto (y # r) (length (y # r))"
    (is "?L \<longleftrightarrow> ?A \<and> ?R")
  proof
    assume L: ?L
    have ?A using L unfolding good_upto_def by (auto dest: spec[of _ 0])
    moreover have ?R unfolding good_upto_def
    proof (intro allI impI)
      fix j assume "Suc j < length (y # r) \<and> j < length (y # r)"
      then have "Suc (Suc j) < length (x # y # r) \<and> Suc j < length (x # y # r)" by simp
      then have "\<not> (ptype ((x # y # r) ! Suc j) = ''literal'' \<and> ptype ((x # y # r) ! Suc (Suc j)) = ''literal'')"
        using L unfolding good_upto_def by blast
      then show "\<not> (ptype ((y # r) ! j) = ''literal'' \<and> ptype ((y # r) ! Suc j) = ''literal'')" by simp
    qed
    ultimately show "?A \<and> ?R" by simp
  next
    assume AR: "?A \<and> ?R"
    show ?L unfolding good_upto_def
    proof (intro allI impI)
      fix j assume j: "Suc j < length (x # y # r) \<and> j < length (x # y # r)"
      show "\<not> (ptype ((x # y # r) ! j) = ''literal'' \<and> ptype ((x # y # r) ! Suc j) = ''literal'')"
      proof (cases j)
        case 0 then show ?thesis using AR by simp
      next
        case (Suc k)
        then have "Suc k < length (y # r) \<and> k < length (y # r)" using j by simp
        then have "\<not> (ptype ((y # r) ! k) = ''literal'' \<and> ptype ((y # r) ! Suc k) = ''literal'')"
          using AR unfolding good_upto_def by blast
        then show ?thesis using Suc by simp
      qed
    qed
  qed
  then show ?case using 1 by simp
qed (simp_all add: good_upto_def)

lemma collapseLiterals_no_adjacent: "no_adjacent_literals (collapseLiterals parts)"
proof -
  have "good_upto parts 0" by (simp add: good_upto_def)
  then show ?thesis
    using good_upto_collapse_from[of parts 0]
    by (simp add: collapseLiterals_def no_adjacent_literals_iff)
qed



subsection \<open>Parts cover the text they were cut from\<close>












lemma formatToParts_Inr:
  assumes "formatToParts formatter pat months weekdays date = Inr parts"
  obtains rx actualResult ms where
    "pat = Inr rx" "formatter date = Inr actualResult"
    "NamedRegExp_match rx actualResult = Some ms"
    "parts = collapseLiterals
               (map (\<lambda>m. \<lparr>ptype = getType months weekdays (mname m) (mvalue m),
                           pvalue = mvalue m\<rparr>) ms)"
  using assms
  by (auto simp: formatToParts_def split: sum.splits option.splits)


subsection \<open>The emulation engine\<close>

text \<open>
  C3. Whatever the date, the formatter, the pattern and the lookups, the parts that
  \<^verbatim>\<open>formatToParts\<close> of the emulation engine returns never hold two consecutive parts of
  type \<^verbatim>\<open>literal\<close>.
\<close>

theorem formatToParts_no_adjacent_literals:
  "formatToParts formatter pat months weekdays date = Inr parts \<Longrightarrow>
     no_adjacent_literals parts"
  by (erule formatToParts_Inr) (simp add: collapseLiterals_no_adjacent)

text \<open>
  At 25/1/2019 the parts are day, literal, month, literal and year. At the text
  25/13/2019 the month group holds 13, which no lookup resolves: it becomes a literal and
  is merged with the separators around it.
\<close>

theorem formatToParts_no_adjacent_literals_witness:
  "formatToParts (numeric_formatter ''/'') (day_month_year ''/'') en_months en_weekdays
       (2019, 13, 25)
     = Inr [\<lparr>ptype = ''day'', pvalue = ''25''\<rparr>,
            \<lparr>ptype = ''literal'', pvalue = ''/13/''\<rparr>,
            \<lparr>ptype = ''year'', pvalue = ''2019''\<rparr>]
   \<and> no_adjacent_literals
         [\<lparr>ptype = ''day'', pvalue = ''25''\<rparr>,
          \<lparr>ptype = ''literal'', pvalue = ''/13/''\<rparr>,
          \<lparr>ptype = ''year'', pvalue = ''2019''\<rparr>]
   \<and> formatToParts (numeric_formatter ''/'') (day_month_year ''/'') en_months en_weekdays
       (2019, 1, 25)
     = Inr [\<lparr>ptype = ''day'', pvalue = ''25''\<rparr>,
            \<lparr>ptype = ''literal'', pvalue = ''/''\<rparr>,
            \<lparr>ptype = ''month'', pvalue = ''1''\<rparr>,
            \<lparr>ptype = ''literal'', pvalue = ''/''\<rparr>,
            \<lparr>ptype = ''year'', pvalue = ''2019''\<rparr>]"
proof -
  have e: "formatToParts (numeric_formatter ''/'') (day_month_year ''/'') en_months
             en_weekdays (2019, 13, 25)
     = Inr [\<lparr>ptype = ''day'', pvalue = ''25''\<rparr>,
            \<lparr>ptype = ''literal'', pvalue = ''/13/''\<rparr>,
            \<lparr>ptype = ''year'', pvalue = ''2019''\<rparr>]"
    by code_simp
  have f: "formatToParts (numeric_formatter ''/'') (day_month_year ''/'') en_months
             en_weekdays (2019, 1, 25)
     = Inr [\<lparr>ptype = ''day'', pvalue = ''25''\<rparr>,
            \<lparr>ptype = ''literal'', pvalue = ''/''\<rparr>,
            \<lparr>ptype = ''month'', pvalue = ''1''\<rparr>,
            \<lparr>ptype = ''literal'', pvalue = ''/''\<rparr>,
            \<lparr>ptype = ''year'', pvalue = ''2019''\<rparr>]"
    by code_simp
  from formatToParts_no_adjacent_literals[OF e] e f show ?thesis by simp
qed

text \<open>
  C4. A token captured by a \<^verbatim>\<open>month\<close> or \<^verbatim>\<open>weekday\<close> group is labelled \<^verbatim>\<open>month\<close> when the
  month lookup resolves it; otherwise \<^verbatim>\<open>weekday\<close> when the weekday lookup resolves it;
  otherwise \<^verbatim>\<open>literal\<close>.
\<close>

theorem getType_month_then_weekday_then_literal:
  "t = ''month'' \<or> t = ''weekday'' \<Longrightarrow>
     ((\<exists>d. months (Some v) = Inr (Some d)) \<longrightarrow>
        getType months weekdays t v = ''month'')
   \<and> ((\<nexists>d. months (Some v) = Inr (Some d)) \<and> (\<exists>d. weekdays (Some v) = Inr (Some d)) \<longrightarrow>
        getType months weekdays t v = ''weekday'')
   \<and> ((\<nexists>d. months (Some v) = Inr (Some d)) \<and> (\<nexists>d. weekdays (Some v) = Inr (Some d)) \<longrightarrow>
        getType months weekdays t v = ''literal'')"
  by (auto simp: getType_def parsable_def Boolean_def split: sum.splits option.splits)

theorem getType_month_then_weekday_then_literal_witness:
  "getType en_months en_weekdays ''weekday'' ''may'' = ''month''
   \<and> getType en_months en_weekdays ''month'' ''fri'' = ''weekday''
   \<and> getType en_months en_weekdays ''month'' ''xyz'' = ''literal''"
proof -
  have m: "en_months (Some ''may'') = Inr (Some \<lparr>dname = ''may'', dnumber = 5\<rparr>)"
    by (simp add: en_months_def table_lookup_def)
  have nm: "\<nexists>d. en_months (Some ''fri'') = Inr (Some d)"
    by (simp add: en_months_def table_lookup_def)
  have w: "en_weekdays (Some ''fri'') = Inr (Some \<lparr>dname = ''fri'', dnumber = 5\<rparr>)"
    by (simp add: en_weekdays_def table_lookup_def)
  have nx: "\<nexists>d. en_months (Some ''xyz'') = Inr (Some d)"
    by (simp add: en_months_def table_lookup_def)
  have nw: "\<nexists>d. en_weekdays (Some ''xyz'') = Inr (Some d)"
    by (simp add: en_weekdays_def table_lookup_def)
  have a: "getType en_months en_weekdays ''weekday'' ''may'' = ''month''"
    using getType_month_then_weekday_then_literal
            [of "''weekday''" en_months "''may''" en_weekdays] m
    by blast
  have b: "getType en_months en_weekdays ''month'' ''fri'' = ''weekday''"
    using getType_month_then_weekday_then_literal
            [of "''month''" en_months "''fri''" en_weekdays] nm w
    by blast
  have c: "getType en_months en_weekdays ''month'' ''xyz'' = ''literal''"
    using getType_month_then_weekday_then_literal
            [of "''month''" en_months "''xyz''" en_weekdays] nx nw
    by blast
  from a b c show ?thesis by simp
qed







subsection \<open>Money format templates\<close>

lemma takeWhile_replicate_stop:
  "(rest = [] \<or> hd rest \<noteq> c) \<Longrightarrow> takeWhile (\<lambda>x. x = c) (replicate n c @ rest) = replicate n c"
  by (induction n) (auto simp: takeWhile_eq_Nil_iff neq_Nil_conv)

lemma head_char_ascii:
  "(of_char c :: int) < 128 \<Longrightarrow> head_char (c # r) = Some (of_char c, 1)"
  by (simp add: head_char_def utf8_width_def Let_def)

lemma code_points_Is: "code_points (Is n) = replicate n 105"
proof (induction n)
  case 0
  show ?case by (simp add: code_points_def chars_of.simps[of "[]"] head_char_def)
next
  case (Suc n)
  have "chars_of (Is (Suc n)) = (105, 1) # chars_of (Is n)"
    by (subst chars_of.simps) (simp add: head_char_ascii)
  then show ?case using Suc by (simp add: code_points_def)
qed

lemma no_line_terminator_Is: "no_line_terminator (Is n)"
proof -
  have "no_terminators (replicate n 105)"
    by (induction n) (simp_all add: line_terminator_def)
  then show ?thesis by (simp add: no_line_terminator_def code_points_Is)
qed

lemma cands_number:
  assumes "0 < m"
  shows "integer_group_cands (Is m @ CHR ''.'' # Fs k) = rev [2 ..< Suc m] @ [1]"
proof -
  let ?s = "Is m @ CHR ''.'' # Fs k"
  have len: "length ?s = m + 1 + k" by simp
  have len': "Suc (length ?s) = Suc m + (1 + k)" by simp
  have split: "[2 ..< Suc (length ?s)] = [2 ..< Suc m] @ [Suc m ..< Suc (length ?s)]"
  proof -
    have "[2 ..< Suc m + (1 + k)] = [2 ..< Suc m] @ [Suc m ..< Suc m + (1 + k)]"
      using assms by (intro upt_add_eq_append) simp
    then show ?thesis by (simp only: len')
  qed
  have inm: "l \<in> set [2 ..< Suc m] \<Longrightarrow>
      ?s ! (l - 1) = CHR ''i'' \<and> no_line_terminator (take (l - 2) (tl ?s))" for l
  proof -
    assume l: "l \<in> set [2 ..< Suc m]"
    then have "l - 1 < m" by auto
    then have a: "?s ! (l - 1) = CHR ''i''" by (simp add: nth_append)
    have "tl ?s = Is (m - 1) @ ''.'' @ Fs k" using assms by (cases m) simp_all
    moreover have "l - 2 \<le> m - 1" using l by auto
    ultimately have "take (l - 2) (tl ?s) = Is (l - 2)" by (simp add: min_def)
    then show ?thesis using a by (simp add: no_line_terminator_Is)
  qed
  have out: "l \<in> set [Suc m ..< Suc (length ?s)] \<Longrightarrow> ?s ! (l - 1) \<noteq> CHR ''i''" for l
  proof -
    assume l: "l \<in> set [Suc m ..< Suc (length ?s)]"
    then have ge: "m \<le> l - 1" and lt: "l - 1 < m + 1 + k" by auto
    show ?thesis
    proof (cases "l - 1 = m")
      case True
      then show ?thesis by (simp add: nth_append)
    next
      case False
      then have "l - 1 - m - 1 < k" using ge lt by arith
      then show ?thesis using ge False by (simp add: nth_append nth_Cons')
    qed
  qed
  have f1: "filter (\<lambda>l. ?s ! (l - 1) = CHR ''i''
              \<and> no_line_terminator (take (l - 2) (tl ?s))) [2 ..< Suc m]
            = [2 ..< Suc m]"
    using inm by (intro filter_True) blast
  have f2: "filter (\<lambda>l. ?s ! (l - 1) = CHR ''i''
              \<and> no_line_terminator (take (l - 2) (tl ?s)))
              [Suc m ..< Suc (length ?s)] = []"
    using out by (intro filter_False) blast
  have hd: "?s \<noteq> [] \<and> hd ?s = CHR ''i''" using assms by (cases m) simp_all
  have "integer_group_cands ?s =
      rev (filter (\<lambda>l. ?s ! (l - 1) = CHR ''i''
              \<and> no_line_terminator (take (l - 2) (tl ?s)))
            [2 ..< Suc (length ?s)]) @ [1]"
    unfolding integer_group_cands_def using hd by (simp only: simp_thms if_True)
  also have "\<dots> = rev [2 ..< Suc m] @ [1]"
    by (simp only: split filter_append f1 f2 append_Nil2)
  finally show ?thesis .
qed

lemma hd_cands_number:
  assumes "0 < m"
  shows "\<exists>rest. integer_group_cands (Is m @ CHR ''.'' # Fs k) = m # rest"
proof (cases "m = 1")
  case True
  then show ?thesis using cands_number[of m k] by simp
next
  case False
  then have "2 \<le> m" using assms by simp
  then have "[2 ..< Suc m] = [2 ..< m] @ [m]" by (simp add: upt_Suc_append)
  then show ?thesis using cands_number[OF assms, of k] by simp
qed

lemma number_alternative_template:
  assumes "0 < m" "0 < k"
  shows "number_alternative (Is m @ CHR ''.'' # Fs k) =
     Some (m + 1 + k,
       [\<lparr>mname = ''integer-group'', mvalue = Is m\<rparr>,
        \<lparr>mname = ''decimal'', mvalue = ''.''\<rparr>,
        \<lparr>mname = ''fraction'', mvalue = Fs k\<rparr>,
        \<lparr>mname = ''currency'', mvalue = []\<rparr>])"
proof -
  obtain rest where c: "integer_group_cands (Is m @ CHR ''.'' # Fs k) = m # rest"
    using hd_cands_number[OF assms(1)] by blast
  have tw: "takeWhile (\<lambda>c. c = CHR ''f'') (Fs k) = Fs k"
    using takeWhile_replicate_stop[of "[]" "CHR ''f''" k] by simp
  have h: "head_char (CHR ''.'' # Fs k) = Some (46, 1)"
    using head_char_ascii[of "CHR ''.''" "Fs k"] by simp
  show ?thesis
    unfolding number_alternative_def c
    using assms(2) by (simp add: tw h Let_def)
qed


lemma number_alternative_not_i:
  "s = [] \<or> hd s \<noteq> CHR ''i'' \<Longrightarrow> number_alternative s = None"
  by (auto simp: number_alternative_def integer_group_cands_def)

lemma match_here_currency:
  assumes "0 < n" "rest = [] \<or> hd rest \<noteq> CHR ''C''"
  shows "match_here format_regex (Cs n @ rest) =
     Some (n, [\<lparr>mname = ''integer-group'', mvalue = []\<rparr>,
               \<lparr>mname = ''decimal'', mvalue = []\<rparr>,
               \<lparr>mname = ''fraction'', mvalue = []\<rparr>,
               \<lparr>mname = ''currency'', mvalue = Cs n\<rparr>])"
proof -
  have h: "Cs n @ rest = [] \<or> hd (Cs n @ rest) \<noteq> CHR ''i''"
    using assms(1) by (cases n) simp_all
  have tw: "takeWhile (\<lambda>c. c = CHR ''C'') (Cs n @ rest) = Cs n"
    using takeWhile_replicate_stop[OF assms(2)] .
  show ?thesis
    using assms(1)
    by (simp add: match_here_def format_regex_def number_alternative_not_i[OF h]
          currency_alternative_def tw Let_def)
qed

lemma match_here_space:
  "match_here format_regex (CHR '' '' # rest) = None"
  by (simp add: match_here_def format_regex_def number_alternative_not_i
        currency_alternative_def)

lemma match_here_number:
  assumes "0 < m" "0 < k"
  shows "match_here format_regex (Is m @ CHR ''.'' # Fs k) =
     Some (m + 1 + k,
       [\<lparr>mname = ''integer-group'', mvalue = Is m\<rparr>,
        \<lparr>mname = ''decimal'', mvalue = ''.''\<rparr>,
        \<lparr>mname = ''fraction'', mvalue = Fs k\<rparr>,
        \<lparr>mname = ''currency'', mvalue = []\<rparr>])"
  by (simp add: match_here_def format_regex_def number_alternative_template[OF assms])

lemma iterate_template:
  assumes "0 < n" "0 < m" "0 < k"
  shows "iterate format_regex (Cs n @ CHR '' '' # Is m @ CHR ''.'' # Fs k) =
     [Matched [\<lparr>mname = ''integer-group'', mvalue = []\<rparr>,
               \<lparr>mname = ''decimal'', mvalue = []\<rparr>,
               \<lparr>mname = ''fraction'', mvalue = []\<rparr>,
               \<lparr>mname = ''currency'', mvalue = Cs n\<rparr>],
      Unmatched '' '',
      Matched [\<lparr>mname = ''integer-group'', mvalue = Is m\<rparr>,
               \<lparr>mname = ''decimal'', mvalue = ''.''\<rparr>,
               \<lparr>mname = ''fraction'', mvalue = Fs k\<rparr>,
               \<lparr>mname = ''currency'', mvalue = []\<rparr>]]"
proof -
  let ?num = "Is m @ CHR ''.'' # Fs k"
  have e4: "iterate_from format_regex [] [] = []"
    by (subst iterate_from.simps) (simp add: flush_def)
  have ne: "?num \<noteq> []" by simp
  have e3: "iterate_from format_regex '' '' ?num =
      [Unmatched '' '',
       Matched [\<lparr>mname = ''integer-group'', mvalue = Is m\<rparr>,
               \<lparr>mname = ''decimal'', mvalue = ''.''\<rparr>,
               \<lparr>mname = ''fraction'', mvalue = Fs k\<rparr>,
               \<lparr>mname = ''currency'', mvalue = []\<rparr>]]"
    using ne
    by (subst iterate_from.simps)
       (simp add: match_here_number[OF assms(2,3)] flush_def e4)
  have e2: "iterate_from format_regex [] (CHR '' '' # ?num) = iterate_from format_regex '' '' ?num"
    by (subst iterate_from.simps) (simp add: match_here_space)
  have e1: "iterate_from format_regex [] (Cs n @ CHR '' '' # ?num) =
      Matched [\<lparr>mname = ''integer-group'', mvalue = []\<rparr>,
               \<lparr>mname = ''decimal'', mvalue = []\<rparr>,
               \<lparr>mname = ''fraction'', mvalue = []\<rparr>,
               \<lparr>mname = ''currency'', mvalue = Cs n\<rparr>]
        # iterate_from format_regex [] (CHR '' '' # ?num)"
    using assms(1)
    by (subst iterate_from.simps)
       (simp add: match_here_currency[OF assms(1), of "CHR '' '' # ?num"] flush_def)
  show ?thesis
    using e1 e2 e3 by (simp add: iterate_def)
qed


lemma integerFormat_parse_run:
  assumes "0 < m"
  shows "IntegerGroupParser_parse IntegerGroupParser_integerFormat (Is m)
           = [\<lparr>ptype = ''integer'', pvalue = Is m\<rparr>]"
proof -
  let ?rx = "run_regex ''integer'' (\<lambda>c. c = CHR ''i'')"
  have tw: "takeWhile (\<lambda>c. c = CHR ''i'') (Is m) = Is m"
    using takeWhile_replicate_stop[of "[]" "CHR ''i''" m] by simp
  have mh: "match_here ?rx (Is m) = Some (m, [\<lparr>mname = ''integer'', mvalue = Is m\<rparr>])"
    using assms by (simp add: match_here_def run_regex_def tw Let_def)
  have e0: "iterate_from ?rx [] [] = []"
    by (subst iterate_from.simps) (simp add: flush_def)
  have "iterate_from ?rx [] (Is m) = [Matched [\<lparr>mname = ''integer'', mvalue = Is m\<rparr>]]"
    using assms by (subst iterate_from.simps) (simp add: mh flush_def e0)
  then show ?thesis
    by (simp add: IntegerGroupParser_parse_def IntegerGroupParser_integerFormat_def
          iterate_def integer_or_group_def)
qed

lemma PartsFromFormat_parse_template:
  assumes "0 < n" "0 < m" "0 < k"
  shows "PartsFromFormat_parse PartsFromFormat_format (Cs n @ CHR '' '' # Is m @ CHR ''.'' # Fs k) =
     Inr [\<lparr>ptype = ''currency'', pvalue = Cs n\<rparr>,
          \<lparr>ptype = ''literal'', pvalue = '' ''\<rparr>,
          \<lparr>ptype = ''integer'', pvalue = Is m\<rparr>,
          \<lparr>ptype = ''decimal'', pvalue = ''.''\<rparr>,
          \<lparr>ptype = ''fraction'', pvalue = Fs k\<rparr>]"
proof -
  have cn: "Cs n \<noteq> []" and im: "Is m \<noteq> []" and fk: "Fs k \<noteq> []"
    using assms by simp_all
  show ?thesis
    using cn im fk
    by (simp add: PartsFromFormat_parse_def PartsFromFormat_format_def
          iterate_template[OF assms] parts_of_match_def part_of_def
          integerFormat_parse_run[OF assms(2)] Let_def)
qed

lemma buildFrom_template:
  "buildFrom symbols
     [\<lparr>ptype = ''currency'', pvalue = c\<rparr>,
      \<lparr>ptype = ''literal'', pvalue = '' ''\<rparr>,
      \<lparr>ptype = ''integer'', pvalue = i\<rparr>,
      \<lparr>ptype = ''decimal'', pvalue = ''.''\<rparr>,
      \<lparr>ptype = ''fraction'', pvalue = f\<rparr>] None
   = ''(?<currency>'' @ symbols None @ '')(?<literal>[  ]?)(?<integer-group>['' @ bs @ ''d]*''
       @ bs @ ''d+)(?<decimal>[.]?)(?<fraction>'' @ bs @ ''d*)(?='' @ bs @ ''s|$)''"
  by (simp add: buildFrom_def pattern_of_part_def Spaces_handle_def Spaces_codes_def)

text \<open>
  C6 (as amended). For money the number of sentinel characters is ignored and encodes no
  width: every template made of a run of \<^verbatim>\<open>C\<close>, a space, a run of \<^verbatim>\<open>i\<close>, a full stop and
  a run of \<^verbatim>\<open>f\<close> yields the pattern of \<^verbatim>\<open>C i.f\<close>, whatever the lengths of the runs. For a
  date template the number of sentinel characters does select the width.
\<close>

theorem money_format_counts_ignored:
  assumes "0 < n" "0 < m" "0 < k"
  shows "buildFromOptions symbols exampleParts loc
           (Some \<lparr>format = Some (Cs n @ '' '' @ Is m @ ''.'' @ Fs k)\<rparr>)
         = buildFromOptions symbols exampleParts loc (Some \<lparr>format = Some ''C i.f''\<rparr>)
       \<and> formatFrom ''month'' 4 = Inr ''long'' \<and> formatFrom ''month'' 3 = Inr ''short''
       \<and> formatFrom ''month'' 2 = Inr ''2-digit'' \<and> formatFrom ''month'' 1 = Inr ''numeric''"
proof -
  have one: "PartsFromFormat_parse PartsFromFormat_format ''C i.f'' =
     Inr [\<lparr>ptype = ''currency'', pvalue = ''C''\<rparr>,
          \<lparr>ptype = ''literal'', pvalue = '' ''\<rparr>,
          \<lparr>ptype = ''integer'', pvalue = ''i''\<rparr>,
          \<lparr>ptype = ''decimal'', pvalue = ''.''\<rparr>,
          \<lparr>ptype = ''fraction'', pvalue = ''f''\<rparr>]"
    using PartsFromFormat_parse_template[of 1 1 1] by simp
  have ne: "Cs n @ CHR '' '' # Is m @ CHR ''.'' # Fs k \<noteq> []" by simp
  have money: "buildFromOptions symbols exampleParts loc
           (Some \<lparr>format = Some (Cs n @ '' '' @ Is m @ ''.'' @ Fs k)\<rparr>)
         = buildFromOptions symbols exampleParts loc (Some \<lparr>format = Some ''C i.f''\<rparr>)"
    using ne
    by (simp add: buildFromOptions_def PartsFromFormat_parse_template[OF assms] one
          buildFrom_template)
  have dates: "formatFrom ''month'' 4 = Inr ''long''" "formatFrom ''month'' 3 = Inr ''short''"
    "formatFrom ''month'' 2 = Inr ''2-digit''" "formatFrom ''month'' 1 = Inr ''numeric''"
    by (simp_all add: formatFrom_def)
  from money dates show ?thesis by simp
qed

theorem money_format_counts_ignored_witness:
  "buildFromOptions (\<lambda>l. ''GBP|USD'') (\<lambda>l. []) None (Some \<lparr>format = Some ''CCC iii.fff''\<rparr>)
     = buildFromOptions (\<lambda>l. ''GBP|USD'') (\<lambda>l. []) None (Some \<lparr>format = Some ''C i.f''\<rparr>)"
proof -
  have t: "Cs 3 @ '' '' @ Is 3 @ ''.'' @ Fs 3 = ''CCC iii.fff''"
    by (simp add: numeral_3_eq_3)
  have "(0::nat) < 3" by simp
  from money_format_counts_ignored[OF this this this, of "\<lambda>l. ''GBP|USD''" "\<lambda>l. []" None]
  show ?thesis unfolding t by blast
qed

text \<open>
  C6 as first stated fails: the templates \<^verbatim>\<open>CCC iii.fff\<close> and \<^verbatim>\<open>C i.f\<close> are cut into
  parts that differ in their values only, and give the same pattern.
\<close>

theorem money_format_width_counterexample:
  "PartsFromFormat_parse PartsFromFormat_format ''CCC iii.fff''
     = Inr [\<lparr>ptype = ''currency'', pvalue = ''CCC''\<rparr>,
            \<lparr>ptype = ''literal'', pvalue = '' ''\<rparr>,
            \<lparr>ptype = ''integer'', pvalue = ''iii''\<rparr>,
            \<lparr>ptype = ''decimal'', pvalue = ''.''\<rparr>,
            \<lparr>ptype = ''fraction'', pvalue = ''fff''\<rparr>]
   \<and> PartsFromFormat_parse PartsFromFormat_format ''C i.f''
     = Inr [\<lparr>ptype = ''currency'', pvalue = ''C''\<rparr>,
            \<lparr>ptype = ''literal'', pvalue = '' ''\<rparr>,
            \<lparr>ptype = ''integer'', pvalue = ''i''\<rparr>,
            \<lparr>ptype = ''decimal'', pvalue = ''.''\<rparr>,
            \<lparr>ptype = ''fraction'', pvalue = ''f''\<rparr>]
   \<and> buildFromOptions (\<lambda>l. ''GBP|USD'') (\<lambda>l. []) None
         (Some \<lparr>format = Some ''CCC iii.fff''\<rparr>)
     = buildFromOptions (\<lambda>l. ''GBP|USD'') (\<lambda>l. []) None (Some \<lparr>format = Some ''C i.f''\<rparr>)"
  by code_simp

subsection \<open>Currency decimals\<close>

lemma prototype_names_not_3: "length code = 3 \<Longrightarrow> code \<notin> set object_prototype_names"
  by (auto simp: object_prototype_names_def)

lemma decimalsFor_inherited_property:
  "decimalsFor example_currencies ''constructor'' = None"
  by (simp add: decimalsFor_def example_currencies_def object_prototype_names_def)

text \<open>
  C10. For a three-letter currency code the table does not hold, \<^verbatim>\<open>decimalsFor\<close> returns
  2 and \<^verbatim>\<open>Formatter.create\<close> asks the host for at most 2 fraction digits; for a code the
  table holds, both are the registered number of decimals.
\<close>

theorem decimalsFor_unknown_code_is_2:
  "length code = 3 \<Longrightarrow>
     (currencies code = None \<longrightarrow>
        decimalsFor currencies code = Some 2
        \<and> maximumFractionDigits (Formatter_create currencies code display) = Some 2)
   \<and> (\<forall>c. currencies code = Some c \<longrightarrow>
        decimalsFor currencies code = Some (decimals c)
        \<and> maximumFractionDigits (Formatter_create currencies code display)
            = Some (decimals c))"
  using prototype_names_not_3[of code]
  by (simp add: decimalsFor_def Formatter_create_def)

theorem decimalsFor_unknown_code_is_2_witness:
  "decimalsFor example_currencies ''XTS'' = Some 2
   \<and> maximumFractionDigits (Formatter_create example_currencies ''XTS'' None) = Some 2
   \<and> decimalsFor example_currencies ''JPY'' = Some 0
   \<and> maximumFractionDigits (Formatter_create example_currencies ''JPY'' None) = Some 0"
proof -
  have a: "example_currencies ''XTS'' = None"
    by (simp add: example_currencies_def)
  have b: "example_currencies ''JPY'' = Some \<lparr>decimals = 0\<rparr>"
    by (simp add: example_currencies_def)
  have l: "length ''XTS'' = 3" "length ''JPY'' = 3" by simp_all
  from decimalsFor_unknown_code_is_2[OF l(1), of example_currencies None]
       decimalsFor_unknown_code_is_2[OF l(2), of example_currencies None] a b
  show ?thesis by simp
qed

subsection \<open>Constructing the date formatter\<close>

lemma ImprovedDateTimeFormat_create_result:
  assumes "options < length h"
  shows "ImprovedDateTimeFormat_create host loc options h =
     (construct host loc (AList.update ''timeZone'' ''UTC'' (h ! options)),
      h @ [h ! options, leaves host loc (AList.update ''timeZone'' ''UTC'' (h ! options))])"
  using assms
  by (auto simp: ImprovedDateTimeFormat_create_def dateTimeFormat_def new_DateTimeFormat_def
        alloc_def Let_def nth_append list_update_append split: sum.splits)

text \<open>
  C8, at a host that removes the \<^verbatim>\<open>weekday\<close> key from the options object it is given:
  \<^verbatim>\<open>create\<close> returns the formatter and raises nothing. The object the host changed is
  the third of the store, the copy made by \<^verbatim>\<open>Formatters.dateTimeFormat\<close>; the clone
  whose keys are counted is the second and keeps both keys.
\<close>

theorem create_does_not_detect_removed_key:
  "ImprovedDateTimeFormat_create key_removing_host ''en-GB'' 0
       [[(''weekday'', ''long''), (''year'', ''numeric'')]]
     = (Inr (''en-GB'', [(''weekday'', ''long''), (''year'', ''numeric''), (''timeZone'', ''UTC'')]),
        [[(''weekday'', ''long''), (''year'', ''numeric'')],
         [(''weekday'', ''long''), (''year'', ''numeric'')],
         [(''year'', ''numeric''), (''timeZone'', ''UTC'')]])"
  by (simp add: ImprovedDateTimeFormat_create_result key_removing_host_def)

text \<open>
  On every host, whatever it does to the object it is given: \<^verbatim>\<open>create\<close> returns what the
  host's constructor returns or throws, never the error of its own check, and the
  caller's options object and every other object of the store stay as they were.
\<close>

theorem create_never_raises_its_own_error:
  assumes "options < length h"
  shows "fst (ImprovedDateTimeFormat_create host loc options h)
           = construct host loc (AList.update ''timeZone'' ''UTC'' (h ! options))
         \<and> take (length h) (snd (ImprovedDateTimeFormat_create host loc options h)) = h"
  using ImprovedDateTimeFormat_create_result[OF assms, of host loc] by simp

theorem create_never_raises_its_own_error_witness:
  "fst (ImprovedDateTimeFormat_create key_removing_host ''en-GB'' 0
          [[(''weekday'', ''long''), (''year'', ''numeric'')]])
     = Inr (''en-GB'', [(''weekday'', ''long''), (''year'', ''numeric''), (''timeZone'', ''UTC'')])
   \<and> take 1 (snd (ImprovedDateTimeFormat_create key_removing_host ''en-GB'' 0
                      [[(''weekday'', ''long''), (''year'', ''numeric'')]]))
     = [[(''weekday'', ''long''), (''year'', ''numeric'')]]"
proof -
  have l: "0 < length [[(''weekday'', ''long''), (''year'', ''numeric'')]]" by simp
  from create_never_raises_its_own_error[OF l, of key_removing_host "''en-GB''"]
  show ?thesis by (simp add: key_removing_host_def)
qed

subsection \<open>The generated date parser\<close>

text \<open>
  C9. Two texts that the same generated parser matches with the same year, month and day
  groups parse to the same result, whatever the weekday groups hold: \<^verbatim>\<open>parse\<close> reads the
  three groups only and never calls the weekday handler.
\<close>

theorem parse_ignores_weekday:
  assumes "groups p = RegexBuilder_groups names months weekdays"
    and "regex p (toLower p v1) 0 = Some (m1, e1)"
    and "regex p (toLower p v2) 0 = Some (m2, e2)"
    and "group_at m1 (names ''year'') = group_at m2 (names ''year'')"
    and "group_at m1 (names ''month'') = group_at m2 (names ''month'')"
    and "group_at m1 (names ''day'') = group_at m2 (names ''day'')"
  shows "RegexParser_parse mkDate p v1 = RegexParser_parse mkDate p v2"
proof -
  have y: "year (groups p) m1 = year (groups p) m2"
    using assms(1,4) by (simp add: RegexBuilder_groups_def numeric_def)
  have mo: "month (groups p) m1 = month (groups p) m2"
    using assms(1,5) by (simp add: RegexBuilder_groups_def parseMonth_def)
  have d: "day (groups p) m1 = day (groups p) m2"
    using assms(1,6) by (simp add: RegexBuilder_groups_def numeric_def)
  have "assemble mkDate (groups p) m1 = assemble mkDate (groups p) m2"
    unfolding assemble_def y mo d ..
  then show ?thesis
    using assms(2,3) by (simp add: RegexParser_parse_def)
qed

theorem parse_ignores_weekday_witness:
  "RegexParser_parse triple_date weekday_day_month_year_parser ''Friday, 25 January 2019''
     = RegexParser_parse triple_date weekday_day_month_year_parser ''Monday, 25 January 2019''
   \<and> RegexParser_parse triple_date weekday_day_month_year_parser ''Monday, 25 January 2019''
     = Inr (Num 2019, Num 1, Num 25)"
proof -
  let ?p = weekday_day_month_year_parser
  let ?m1 = "[Some ''friday, 25 january 2019'', Some ''friday'', Some ''25'', Some ''january'',
              Some ''2019'']"
  let ?m2 = "[Some ''monday, 25 january 2019'', Some ''monday'', Some ''25'', Some ''january'',
              Some ''2019'']"
  have g: "groups ?p = RegexBuilder_groups weekday_day_month_year_names en_months en_weekdays"
    by (simp add: weekday_day_month_year_parser_def)
  have l1: "toLower ?p ''Friday, 25 January 2019'' = ''friday, 25 january 2019''"
    unfolding weekday_day_month_year_parser_def by code_simp
  have l2: "toLower ?p ''Monday, 25 January 2019'' = ''monday, 25 january 2019''"
    unfolding weekday_day_month_year_parser_def by code_simp
  have r1: "regex ?p (toLower ?p ''Friday, 25 January 2019'') 0 = Some (?m1, 23)"
    unfolding l1 by (simp add: weekday_day_month_year_parser_def weekday_day_month_year_regex_def)
  have r2: "regex ?p (toLower ?p ''Monday, 25 January 2019'') 0 = Some (?m2, 23)"
    unfolding l2 by (simp add: weekday_day_month_year_parser_def weekday_day_month_year_regex_def)
  have y: "group_at ?m1 (weekday_day_month_year_names ''year'')
         = group_at ?m2 (weekday_day_month_year_names ''year'')"
    by (simp add: weekday_day_month_year_names_def group_at_def)
  have mo: "group_at ?m1 (weekday_day_month_year_names ''month'')
         = group_at ?m2 (weekday_day_month_year_names ''month'')"
    by (simp add: weekday_day_month_year_names_def group_at_def)
  have d: "group_at ?m1 (weekday_day_month_year_names ''day'')
         = group_at ?m2 (weekday_day_month_year_names ''day'')"
    by (simp add: weekday_day_month_year_names_def group_at_def)
  have e: "RegexParser_parse triple_date ?p ''Monday, 25 January 2019''
             = Inr (Num 2019, Num 1, Num 25)"
    by code_simp
  from parse_ignores_weekday[OF g r1 r2 y mo d, of triple_date] e
  show ?thesis by simp
qed

subsection \<open>Scanning a document with several candidates\<close>

lemma RegexParser_parseAll_example:
  "RegexParser_parseAll triple_date (day_month_year_parser src) ''See you on 25 January 2019''
     = Some (Inr [(Num 2019, Num 1, Num 25)])"
proof -
  let ?p = "day_month_year_parser src"
  have l: "toLower ?p ''See you on 25 January 2019'' = ''see you on 25 january 2019''"
    unfolding day_month_year_parser_def by code_simp
  have r0: "regex ?p ''see you on 25 january 2019'' 0
      = Some ([Some ''25 january 2019'', Some ''25'', Some ''january'', Some ''2019''], 26)"
    by (simp add: day_month_year_parser_def day_month_year_regex_def)
  have r1: "regex ?p ''see you on 25 january 2019'' 26 = None"
    by (simp add: day_month_year_parser_def day_month_year_regex_def)
  have g: "groups ?p = day_month_year_groups"
    by (simp add: day_month_year_parser_def)
  have a: "assemble triple_date day_month_year_groups
             [Some ''25 january 2019'', Some ''25'', Some ''january'', Some ''2019'']
           = Inr (Num 2019, Num 1, Num 25)"
    by code_simp
  have s1: "parseAll_loop triple_date ?p ''see you on 25 january 2019'' 26
              [(Num 2019, Num 1, Num 25)] = Some (Inr [(Num 2019, Num 1, Num 25)])"
    by (subst parseAll_loop.simps) (simp add: r1)
  have "parseAll_loop triple_date ?p ''see you on 25 january 2019'' 0 []
          = Some (Inr [(Num 2019, Num 1, Num 25)])"
    by (subst parseAll_loop.simps) (simp add: r0 g a s1)
  then show ?thesis
    unfolding RegexParser_parseAll_def l .
qed

lemma parseAll_loop_chain:
  "matches_from (regex p) lower i ms \<Longrightarrow>
   list_all2 (\<lambda>me d. assemble mkDate (groups p) (fst me) = Inr d) ms ds \<Longrightarrow>
     parseAll_loop mkDate p lower i acc = Some (Inr (acc @ ds))"
proof (induction ms arbitrary: i acc ds)
  case Nil
  then show ?case by (subst parseAll_loop.simps) simp
next
  case (Cons me ms)
  from Cons.prems(2) obtain d ds' where ds: "ds = d # ds'"
    "assemble mkDate (groups p) (fst me) = Inr d"
    "list_all2 (\<lambda>me d. assemble mkDate (groups p) (fst me) = Inr d) ms ds'"
    by (auto simp: list_all2_Cons1)
  from Cons.prems(1) have r: "regex p lower i = Some me"
    and rest: "matches_from (regex p) lower (snd me) ms" by simp_all
  obtain m e where me: "me = (m, e)" by (cases me)
  have "parseAll_loop mkDate p lower i acc
          = parseAll_loop mkDate p lower (snd me) (acc @ [d])"
    using ds(2) by (subst parseAll_loop.simps) (simp add: r me)
  also have "\<dots> = Some (Inr ((acc @ [d]) @ ds'))"
    using Cons.IH[OF rest ds(3)] .
  finally show ?case using ds(1) by simp
qed

text \<open>
  \<^verbatim>\<open>RegexParser.parseAll\<close> returns, when the regex finds finitely many matches and each
  assembles to a date, the dates of the successive matches from left to right.
\<close>

theorem RegexParser_parseAll_lists_matches:
  "matches_from (regex p) (toLower p v) 0 ms \<Longrightarrow>
   list_all2 (\<lambda>me d. assemble mkDate (groups p) (fst me) = Inr d) ms ds \<Longrightarrow>
     RegexParser_parseAll mkDate p v = Some (Inr ds)"
  using parseAll_loop_chain[of p "toLower p v" 0 ms mkDate ds "[]"]
  by (simp add: RegexParser_parseAll_def)

theorem RegexParser_parseAll_lists_matches_witness:
  "RegexParser_parseAll triple_date (day_month_year_parser ''long'')
     ''See you on 25 January 2019'' = Some (Inr [(Num 2019, Num 1, Num 25)])"
proof -
  let ?p = "day_month_year_parser ''long''"
  let ?m = "[Some ''25 january 2019'', Some ''25'', Some ''january'', Some ''2019'']"
  have l: "toLower ?p ''See you on 25 January 2019'' = ''see you on 25 january 2019''"
    unfolding day_month_year_parser_def by code_simp
  have c: "matches_from (regex ?p) (toLower ?p ''See you on 25 January 2019'') 0 [(?m, 26)]"
    unfolding l by (simp add: day_month_year_parser_def day_month_year_regex_def)
  have a: "assemble triple_date day_month_year_groups ?m = Inr (Num 2019, Num 1, Num 25)"
    by code_simp
  have "list_all2 (\<lambda>me d. assemble triple_date (groups ?p) (fst me) = Inr d)
          [(?m, 26)] [(Num 2019, Num 1, Num 25)]"
    using a by (simp add: day_month_year_parser_def)
  from RegexParser_parseAll_lists_matches[OF c this] show ?thesis .
qed

lemma count_list_concat:
  "count_list (concat dss) d = sum_list (map (\<lambda>ds. count_list ds d) dss)"
  by (induction dss) simp_all

text \<open>
  C5 (as amended). When every candidate returns, \<^verbatim>\<open>parseAll\<close> of the composite parser
  returns the candidates' own results joined end to end in the order of the candidates;
  nothing is removed, so a value occurs in the result as often as in all the candidates'
  results together.
\<close>

theorem composite_parseAll_joins_candidates:
  "list_all2 (\<lambda>p ds. parseAll p v = Some (Inr ds)) ps dss \<Longrightarrow>
     CompositeDateParser_parseAll ps v = Some (Inr (concat dss))
     \<and> (\<forall>d. count_list (concat dss) d = sum_list (map (\<lambda>ds. count_list ds d) dss))"
proof -
  assume "list_all2 (\<lambda>p ds. parseAll p v = Some (Inr ds)) ps dss"
  then have "map_calls (\<lambda>p. parseAll p v) ps = Some (Inr dss)"
    by (induction ps dss rule: list_all2_induct) simp_all
  then have "CompositeDateParser_parseAll ps v = Some (Inr (concat dss))"
    by (simp add: CompositeDateParser_parseAll_def flatten_def)
  then show ?thesis by (simp add: count_list_concat)
qed

theorem composite_parseAll_joins_candidates_witness:
  "CompositeDateParser_parseAll
     [RegexParser_DateParser triple_date (day_month_year_parser ''long''),
      RegexParser_DateParser triple_date (day_month_year_parser ''short'')]
     ''See you on 25 January 2019''
   = Some (Inr (concat [[(Num 2019, Num 1, Num 25)], [(Num 2019, Num 1, Num 25)]]))"
proof -
  have "list_all2 (\<lambda>p ds. parseAll p ''See you on 25 January 2019'' = Some (Inr ds))
          [RegexParser_DateParser triple_date (day_month_year_parser ''long''),
           RegexParser_DateParser triple_date (day_month_year_parser ''short'')]
          [[(Num 2019, Num 1, Num 25)], [(Num 2019, Num 1, Num 25)]]"
    by (simp add: RegexParser_DateParser_def RegexParser_parseAll_example)
  from composite_parseAll_joins_candidates[OF this] show ?thesis by blast
qed

text \<open>
  C5 as first stated fails: two candidates that match the same span of the document
  both contribute its value, and the result holds it twice.
\<close>

theorem composite_parseAll_duplicates_counterexample:
  "CompositeDateParser_parseAll
     [RegexParser_DateParser triple_date (day_month_year_parser ''long''),
      RegexParser_DateParser triple_date (day_month_year_parser ''short'')]
     ''See you on 25 January 2019''
   = Some (Inr [(Num 2019, Num 1, Num 25), (Num 2019, Num 1, Num 25)])"
  by (simp add: CompositeDateParser_parseAll_def flatten_def RegexParser_DateParser_def
        RegexParser_parseAll_example)

subsection \<open>Parser composition\<close>

lemma CompositeDateParser_parse_Inr:
  "CompositeDateParser_parse ps v = Inr r \<longleftrightarrow>
     (\<exists>i < length ps. parse (ps ! i) v = Inr (Some r) \<and> (\<forall>j < i. \<not> succeeds (ps ! j) v))"
proof (induction ps)
  case Nil
  show ?case by simp
next
  case (Cons p ps)
  show ?case
  proof (cases "succeeds p v")
    case True
    then obtain r' where p: "parse p v = Inr (Some r')"
      by (auto simp: succeeds_def Boolean_def split: sum.splits option.splits)
    have "(\<exists>i < length (p # ps). parse ((p # ps) ! i) v = Inr (Some r) \<and>
             (\<forall>j < i. \<not> succeeds ((p # ps) ! j) v)) \<longleftrightarrow> r' = r"
    proof
      assume "\<exists>i < length (p # ps). parse ((p # ps) ! i) v = Inr (Some r) \<and>
             (\<forall>j < i. \<not> succeeds ((p # ps) ! j) v)"
      then obtain i where i: "parse ((p # ps) ! i) v = Inr (Some r)"
        "\<forall>j < i. \<not> succeeds ((p # ps) ! j) v" by blast
      have "i = 0"
      proof (rule ccontr)
        assume "i \<noteq> 0"
        then have "\<not> succeeds ((p # ps) ! 0) v" using i(2) by blast
        then show False using True by simp
      qed
      then show "r' = r" using i(1) p by simp
    next
      assume "r' = r"
      then have "parse ((p # ps) ! 0) v = Inr (Some r)" using p by simp
      then show "\<exists>i < length (p # ps). parse ((p # ps) ! i) v = Inr (Some r) \<and>
             (\<forall>j < i. \<not> succeeds ((p # ps) ! j) v)"
        by (intro exI[of _ 0]) simp
    qed
    then show ?thesis using p by simp
  next
    case False
    then have step: "CompositeDateParser_parse (p # ps) v = CompositeDateParser_parse ps v"
      by (auto simp: succeeds_def Boolean_def split: sum.splits option.splits)
    have np: "parse p v \<noteq> Inr (Some r)"
      using False by (auto simp: succeeds_def Boolean_def)
    have "(\<exists>i < length (p # ps). parse ((p # ps) ! i) v = Inr (Some r) \<and>
             (\<forall>j < i. \<not> succeeds ((p # ps) ! j) v)) \<longleftrightarrow>
          (\<exists>i < length ps. parse (ps ! i) v = Inr (Some r) \<and> (\<forall>j < i. \<not> succeeds (ps ! j) v))"
      (is "?L \<longleftrightarrow> ?R")
    proof
      assume ?L
      then obtain i where i: "i < length (p # ps)" "parse ((p # ps) ! i) v = Inr (Some r)"
        "\<forall>j < i. \<not> succeeds ((p # ps) ! j) v" by blast
      from i(2) np obtain k where k: "i = Suc k" by (cases i) auto
      have "\<forall>j < k. \<not> succeeds (ps ! j) v"
      proof (intro allI impI)
        fix j assume "j < k"
        then have "Suc j < i" using k by simp
        then have "\<not> succeeds ((p # ps) ! Suc j) v" using i(3) by blast
        then show "\<not> succeeds (ps ! j) v" by simp
      qed
      then show ?R using i(1,2) k by (intro exI[of _ k]) simp
    next
      assume ?R
      then obtain k where k: "k < length ps" "parse (ps ! k) v = Inr (Some r)"
        "\<forall>j < k. \<not> succeeds (ps ! j) v" by blast
      have "\<forall>j < Suc k. \<not> succeeds ((p # ps) ! j) v"
      proof (intro allI impI)
        fix j assume j: "j < Suc k"
        show "\<not> succeeds ((p # ps) ! j) v"
          using False k(3) j by (cases j) auto
      qed
      then show ?L using k(1,2) by (intro exI[of _ "Suc k"]) simp
    qed
    then show ?thesis using step Cons.IH by simp
  qed
qed

lemma CompositeDateParser_parse_Inl:
  "CompositeDateParser_parse ps v = Inl e \<Longrightarrow>
     e = Error (''Unable to parse date: '' @ v) \<and> (\<forall>p \<in> set ps. \<not> succeeds p v)"
  by (induction ps)
     (auto simp: succeeds_def Boolean_def split: sum.splits option.splits)

lemma CompositeDateParser_parse_all_fail:
  "\<forall>p \<in> set ps. \<not> succeeds p v \<Longrightarrow>
     CompositeDateParser_parse ps v = Inl (Error (''Unable to parse date: '' @ v))"
  by (induction ps)
     (auto simp: succeeds_def Boolean_def split: sum.splits option.splits)

text \<open>
  C2. The composite parser tries the candidates in list order and returns the result of
  the first one that succeeds; a candidate's own failure never reaches the caller; the
  only error raised is \<^verbatim>\<open>Error("Unable to parse date: " + value)\<close>, and it is raised
  exactly when every candidate fails.
\<close>

theorem composite_parse_first_success:
  "(\<forall>r. CompositeDateParser_parse ps v = Inr r \<longleftrightarrow>
       (\<exists>i < length ps. parse (ps ! i) v = Inr (Some r) \<and>
          (\<forall>j < i. \<not> succeeds (ps ! j) v)))
   \<and> (\<forall>e. CompositeDateParser_parse ps v = Inl e \<longrightarrow>
          e = Error (''Unable to parse date: '' @ v))
   \<and> (CompositeDateParser_parse ps v = Inl (Error (''Unable to parse date: '' @ v)) \<longleftrightarrow>
        (\<forall>p \<in> set ps. \<not> succeeds p v))"
proof (intro conjI allI impI)
  fix r
  show "CompositeDateParser_parse ps v = Inr r \<longleftrightarrow>
       (\<exists>i < length ps. parse (ps ! i) v = Inr (Some r) \<and>
          (\<forall>j < i. \<not> succeeds (ps ! j) v))"
    by (rule CompositeDateParser_parse_Inr)
next
  fix e assume "CompositeDateParser_parse ps v = Inl e"
  then show "e = Error (''Unable to parse date: '' @ v)"
    using CompositeDateParser_parse_Inl by blast
next
  show "CompositeDateParser_parse ps v = Inl (Error (''Unable to parse date: '' @ v)) \<longleftrightarrow>
        (\<forall>p \<in> set ps. \<not> succeeds p v)"
    using CompositeDateParser_parse_Inl CompositeDateParser_parse_all_fail by blast
qed

theorem composite_parse_first_success_witness:
  "CompositeDateParser_parse
     [\<lparr>parse = (\<lambda>v. Inl (Error ''no match'')), parseAll = (\<lambda>v. Some (Inr []))\<rparr>,
      \<lparr>parse = (\<lambda>v. Inr (Some (2018 :: int, 12 :: int, 18 :: int))),
       parseAll = (\<lambda>v. Some (Inr []))\<rparr>]
     ''18/12/2018'' = Inr (2018, 12, 18)
   \<and> CompositeDateParser_parse
       [\<lparr>parse = (\<lambda>v. Inl (Error ''no match'')),
         parseAll = (\<lambda>v. Some (Inr ([] :: (int \<times> int \<times> int) list)))\<rparr>,
        \<lparr>parse = (\<lambda>v. Inr None), parseAll = (\<lambda>v. Some (Inr []))\<rparr>]
       ''soon'' = Inl (Error ''Unable to parse date: soon'')"
proof -
  let ?bad = "\<lparr>parse = (\<lambda>v. Inl (Error ''no match'')),
               parseAll = (\<lambda>v. Some (Inr ([] :: (int \<times> int \<times> int) list)))\<rparr>"
  let ?good = "\<lparr>parse = (\<lambda>v. Inr (Some (2018 :: int, 12 :: int, 18 :: int))),
                parseAll = (\<lambda>v. Some (Inr []))\<rparr>"
  let ?none = "\<lparr>parse = (\<lambda>v. Inr None),
                parseAll = (\<lambda>v. Some (Inr ([] :: (int \<times> int \<times> int) list)))\<rparr>"
  have "\<exists>i < length [?bad, ?good].
          parse ([?bad, ?good] ! i) ''18/12/2018'' = Inr (Some (2018, 12, 18))
          \<and> (\<forall>j < i. \<not> succeeds ([?bad, ?good] ! j) ''18/12/2018'')"
    by (intro exI[of _ 1]) (simp add: succeeds_def)
  then have a: "CompositeDateParser_parse [?bad, ?good] ''18/12/2018'' = Inr (2018, 12, 18)"
    using composite_parse_first_success[of "[?bad, ?good]" "''18/12/2018''"] by blast
  have "\<forall>p \<in> set [?bad, ?none]. \<not> succeeds p ''soon''"
    by (simp add: succeeds_def Boolean_def)
  then have b: "CompositeDateParser_parse [?bad, ?none] ''soon''
                  = Inl (Error (''Unable to parse date: '' @ ''soon''))"
    using composite_parse_first_success[of "[?bad, ?none]" "''soon''"] by blast
  from a b show ?thesis by simp
qed


end
